theory Spec2Isabelle
  imports Complex_Main "HOL-Library.Product_Lexorder"
begin

section \<open>Data model of verificador_admisibilidad.py\<close>

text \<open>
  The verifier keeps the loaded PDF, its number of pages and the list of results that
  every verification appends to. Python's \<open>str\<close> is modelled by \<open>string\<close>, read as the
  code points below 256 (Latin-1), which covers the Spanish labels the program looks for.
  Python's \<open>float\<close> is modelled by \<open>real\<close>: percentages and thresholds are computed
  exactly. The human-readable \<open>detalles\<close> messages of a result are formatted text that no
  verified property reads; the record below leaves that field out.
\<close>

record ResultadoVerificacion =
  tipo_verificacion :: string
  estado :: string
  porcentaje_cumplimiento :: real
  folios_afectados :: "nat list"

text \<open>
  \<open>pagina.extract_text()\<close> of PyPDF2 either returns the text of the page or raises; the
  second constructor carries \<open>str(e)\<close> of the exception.
\<close>

datatype extraccion = Texto string | ErrorExtraccion string

record configuracion =
  umbral_blanco :: real
  umbral_ilegibilidad :: real
  umbral_plagio :: real
  verificar_ortografia_cfg :: bool
  idioma_ortografia :: string
  formato_fecha :: string

definition config_default :: configuracion where
  "config_default =
     \<lparr>umbral_blanco = 98 / 100, umbral_ilegibilidad = 60 / 100, umbral_plagio = 85 / 100,
      verificar_ortografia_cfg = True, idioma_ortografia = ''es'',
      formato_fecha = ''%Y-%m-%d %H:%M:%S''\<rparr>"

record verificador =
  ruta_documento :: string
  config :: configuracion
  resultados :: "ResultadoVerificacion list"
  documento_pdf :: "extraccion list option"
  total_folios :: nat

text \<open>The constructor \<open>__init__\<close>: nothing loaded yet, no results.\<close>

definition init_verificador :: "string \<Rightarrow> configuracion option \<Rightarrow> verificador" where
  "init_verificador ruta cfg =
     \<lparr>ruta_documento = ruta,
      config = (case cfg of None \<Rightarrow> config_default | Some c \<Rightarrow> c),
      resultados = [], documento_pdf = None, total_folios = 0\<rparr>"

datatype error = ZeroDivisionError | ValueError

section \<open>Aggregation of the results\<close>

text \<open>
  \<open>_determinar_estado_global\<close> counts the results whose state is \<open>RECHAZADO\<close> and those
  whose state is \<open>OBSERVADO\<close>; no other state is looked at.
\<close>

definition determinar_estado_global :: "verificador \<Rightarrow> string" where
  "determinar_estado_global v =
     (let rechazados = length (filter (\<lambda>r. estado r = ''RECHAZADO'') (resultados v));
          observados = length (filter (\<lambda>r. estado r = ''OBSERVADO'') (resultados v))
      in if rechazados > 0 then ''NO ADMISIBLE''
         else if observados > 0 then ''ADMISIBLE CON OBSERVACIONES''
         else ''ADMISIBLE'')"

section \<open>Characters and strings\<close>

text \<open>
  The character classes of Python on the code points below 256: \<open>str.isspace\<close> (also the
  class \<open>\s\<close> of \<open>re\<close> and what \<open>str.strip\<close> removes), the decimal digits \<open>\d\<close>,
  \<open>str.isalnum\<close>, and the lower-case mapping that \<open>re.IGNORECASE\<close> compares with.
\<close>

definition codigo :: "char \<Rightarrow> nat" where
  "codigo c = of_char c"

definition isspace :: "char \<Rightarrow> bool" where
  "isspace c = (let n = codigo c in
     (9 \<le> n \<and> n \<le> 13) \<or> (28 \<le> n \<and> n \<le> 32) \<or> n = 133 \<or> n = 160)"

definition isdecimal :: "char \<Rightarrow> bool" where
  "isdecimal c = (let n = codigo c in 48 \<le> n \<and> n \<le> 57)"

definition isalnum :: "char \<Rightarrow> bool" where
  "isalnum c = (let n = codigo c in
     (48 \<le> n \<and> n \<le> 57) \<or> (65 \<le> n \<and> n \<le> 90) \<or> (97 \<le> n \<and> n \<le> 122)
     \<or> n = 170 \<or> n = 178 \<or> n = 179 \<or> n = 181 \<or> n = 185 \<or> n = 186
     \<or> (188 \<le> n \<and> n \<le> 190) \<or> (192 \<le> n \<and> n \<le> 214)
     \<or> (216 \<le> n \<and> n \<le> 246) \<or> (248 \<le> n \<and> n \<le> 255))"

definition minuscula :: "char \<Rightarrow> char" where
  "minuscula c = (let n = codigo c in
     if (65 \<le> n \<and> n \<le> 90) \<or> (192 \<le> n \<and> n \<le> 214) \<or> (216 \<le> n \<and> n \<le> 222)
     then char_of (n + 32) else c)"

definition strip :: "string \<Rightarrow> string" where
  "strip s = rev (dropWhile isspace (rev (dropWhile isspace s)))"

text \<open>
  \<open>int(s)\<close> on a non-empty run of decimal digits. The interpreter refuses to convert a
  string of more than \<open>sys.get_int_max_str_digits()\<close> digits, 4300 by default, leading
  zeros included, and raises \<open>ValueError\<close>.
\<close>

definition int_max_str_digits :: nat where
  "int_max_str_digits = 4300"

definition int_de_digitos :: "string \<Rightarrow> error + nat" where
  "int_de_digitos ds =
     (if length ds > int_max_str_digits then Inl ValueError
      else Inr (foldl (\<lambda>n d. 10 * n + (codigo d - 48)) 0 ds))"

section \<open>Access to the pages\<close>

text \<open>
  \<open>self.documento_pdf.pages[num_pagina].extract_text()\<close>, always evaluated inside the
  \<open>try\<close> of a page loop: the attribute access on a document that was never loaded, an
  index out of range and a failing extraction all raise there.
\<close>

definition extraer_texto :: "verificador \<Rightarrow> nat \<Rightarrow> extraccion" where
  "extraer_texto v num_pagina =
     (case documento_pdf v of
        None \<Rightarrow> ErrorExtraccion ''AttributeError''
      | Some paginas \<Rightarrow>
          if num_pagina < length paginas then paginas ! num_pagina
          else ErrorExtraccion ''IndexError'')"

section \<open>1.1 Blank pages\<close>

text \<open>
  One iteration of the page loop of \<open>_verificar_hojas_blanco\<close>: the handler only prints,
  so a page whose extraction raises leaves the list as it is.
\<close>

definition paso_hojas_blanco :: "verificador \<Rightarrow> nat list \<Rightarrow> nat \<Rightarrow> nat list" where
  "paso_hojas_blanco v hojas_blanco num_pagina =
     (case extraer_texto v num_pagina of
        Texto t \<Rightarrow>
          if length (strip t) < 10 then hojas_blanco @ [num_pagina + 1] else hojas_blanco
      | ErrorExtraccion e \<Rightarrow> hojas_blanco)"

definition hojas_blanco_de :: "verificador \<Rightarrow> nat list" where
  "hojas_blanco_de v = foldl (paso_hojas_blanco v) [] [0..<total_folios v]"

definition agregar :: "verificador \<Rightarrow> ResultadoVerificacion \<Rightarrow> verificador" where
  "agregar v r = v\<lparr>resultados := resultados v @ [r]\<rparr>"

definition verificar_hojas_blanco :: "verificador \<Rightarrow> error + verificador" where
  "verificar_hojas_blanco v =
     (let hojas_blanco = hojas_blanco_de v;
          estado = (if length hojas_blanco = 0 then ''APROBADO'' else ''OBSERVADO'')
      in if total_folios v = 0 then Inl ZeroDivisionError
         else Inr (agregar v
           \<lparr>tipo_verificacion = ''1.1 Hojas en Blanco'',
            estado = estado,
            porcentaje_cumplimiento =
              (real (total_folios v) - real (length hojas_blanco)) / real (total_folios v) * 100,
            folios_afectados = hojas_blanco\<rparr>))"

section \<open>1.2 Pagination\<close>

text \<open>
  The four patterns of \<open>_verificar_foliacion\<close> use literals, \<open>\s*\<close>, \<open>:?\<close>, the group
  \<open>(\d+)\<close>, \<open>^\<close> and \<open>$\<close>. The matcher below is the backtracking matcher of \<open>re\<close> on
  these constructs with the flags \<open>IGNORECASE | MULTILINE\<close>: greedy repetitions try the
  longest run first and give characters back one at a time, literals are compared in
  lower case, \<open>^\<close> holds at the start of the text and after a newline, \<open>$\<close> at the end
  of the text and before a newline.
\<close>

datatype clase = Espacio | Digito

datatype elemento =
    Lit char
  | Estrella clase
  | Opcional char
  | GrupoMas clase
  | Inicio
  | Fin

definition en_clase :: "clase \<Rightarrow> char \<Rightarrow> bool" where
  "en_clase cl c = (case cl of Espacio \<Rightarrow> isspace c | Digito \<Rightarrow> isdecimal c)"

definition salto :: char where
  "salto = CHR 0x0A"

text \<open>
  \<open>casar p prev s g\<close> matches the pattern \<open>p\<close> at the current position: \<open>prev\<close> is the
  character before it (if any), \<open>s\<close> the text from it on and \<open>g\<close> the text captured by
  group 1 so far. The result is the capture of the first successful alternative.
\<close>

fun casar :: "elemento list \<Rightarrow> char option \<Rightarrow> string \<Rightarrow> string \<Rightarrow> string option"
  and repetir :: "elemento list \<Rightarrow> char option \<Rightarrow> string \<Rightarrow> string \<Rightarrow> bool \<Rightarrow> nat \<Rightarrow> nat
                   \<Rightarrow> string option" where
  "casar [] prev s g = Some g"
| "casar (Lit c # p) prev s g =
     (case s of
        [] \<Rightarrow> None
      | d # s' \<Rightarrow> if minuscula d = minuscula c then casar p (Some d) s' g else None)"
| "casar (Opcional c # p) prev s g =
     (case (case s of
              [] \<Rightarrow> None
            | d # s' \<Rightarrow> if d = c then casar p (Some d) s' g else None) of
        Some r \<Rightarrow> Some r
      | None \<Rightarrow> casar p prev s g)"
| "casar (Estrella cl # p) prev s g =
     repetir p prev s g False (length (takeWhile (en_clase cl) s)) 0"
| "casar (GrupoMas cl # p) prev s g =
     repetir p prev s g True (length (takeWhile (en_clase cl) s)) 1"
| "casar (Inicio # p) prev s g =
     (if prev = None \<or> prev = Some salto then casar p prev s g else None)"
| "casar (Fin # p) prev s g =
     (if s = [] \<or> hd s = salto then casar p prev s g else None)"
| "repetir p prev s g captura k kmin =
     (if k < kmin then None
      else case casar p (if k = 0 then prev else Some (s ! (k - 1))) (drop k s)
                  (if captura then take k s else g) of
             Some r \<Rightarrow> Some r
           | None \<Rightarrow> if k = 0 then None else repetir p prev s g captura (k - 1) kmin)"

text \<open>\<open>re.search\<close>: the first position, from the left, where the pattern matches.\<close>

fun buscar_desde :: "elemento list \<Rightarrow> char option \<Rightarrow> string \<Rightarrow> string option" where
  "buscar_desde p prev s =
     (case casar p prev s [] of
        Some g \<Rightarrow> Some g
      | None \<Rightarrow> (case s of [] \<Rightarrow> None | c # s' \<Rightarrow> buscar_desde p (Some c) s'))"

definition re_search :: "elemento list \<Rightarrow> string \<Rightarrow> string option" where
  "re_search p texto = buscar_desde p None texto"

definition etiquetado :: "string \<Rightarrow> elemento list" where
  "etiquetado etiqueta =
     map Lit etiqueta @ [Estrella Espacio, Opcional CHR '':'', Estrella Espacio, GrupoMas Digito]"

definition patrones :: "elemento list list" where
  "patrones =
     [etiquetado ''folio'',
      etiquetado ''foja'',
      etiquetado (''p'' @ [CHR 0xE1] @ ''gina''),
      [Inicio, GrupoMas Digito, Fin]]"

text \<open>
  The loop over the patterns: the first one that matches gives the number, or the
  exception of \<open>int\<close>.
\<close>

fun primer_folio :: "elemento list list \<Rightarrow> string \<Rightarrow> error + nat option" where
  "primer_folio [] texto = Inr None"
| "primer_folio (patron # resto) texto =
     (case re_search patron texto of
        Some g \<Rightarrow> (case int_de_digitos g of Inl e \<Rightarrow> Inl e | Inr n \<Rightarrow> Inr (Some n))
      | None \<Rightarrow> primer_folio resto texto)"

text \<open>
  One iteration of the page loop of \<open>_verificar_foliacion\<close>: the handler only prints, so
  a page whose extraction or whose \<open>int\<close> raises leaves both lists as they are.
\<close>

record folio_leido =
  pagina_leida :: nat
  folio_leido :: "nat option"

record inconsistencia =
  pagina :: nat
  esperado :: nat
  encontrado :: "nat option"

definition paso_foliacion ::
  "verificador \<Rightarrow> folio_leido list \<times> inconsistencia list \<Rightarrow> nat
     \<Rightarrow> folio_leido list \<times> inconsistencia list" where
  "paso_foliacion v acc num_pagina =
     (case extraer_texto v num_pagina of
        Texto t \<Rightarrow>
          (case primer_folio patrones t of
             Inl e \<Rightarrow> acc
           | Inr folio_encontrado \<Rightarrow>
               (let folios_encontrados =
                      fst acc
                      @ [\<lparr>pagina_leida = num_pagina + 1, folio_leido = folio_encontrado\<rparr>]
                in if folio_encontrado \<noteq> Some (num_pagina + 1)
                   then (folios_encontrados,
                         snd acc @ [\<lparr>pagina = num_pagina + 1, esperado = num_pagina + 1,
                                     encontrado = folio_encontrado\<rparr>])
                   else (folios_encontrados, snd acc)))
      | ErrorExtraccion e \<Rightarrow> acc)"

definition folios_incorrectos_de :: "verificador \<Rightarrow> inconsistencia list" where
  "folios_incorrectos_de v = snd (foldl (paso_foliacion v) ([], []) [0..<total_folios v])"

definition verificar_foliacion :: "verificador \<Rightarrow> error + verificador" where
  "verificar_foliacion v =
     (let folios_incorrectos = folios_incorrectos_de v;
          estado =
            (if length folios_incorrectos = 0 then ''APROBADO''
             else if real (length folios_incorrectos) \<le> real (total_folios v) * (1 / 10)
                  then ''OBSERVADO''
             else ''RECHAZADO'')
      in if total_folios v = 0 then Inl ZeroDivisionError
         else Inr (agregar v
           \<lparr>tipo_verificacion = ''1.2 Foliaci'' @ [CHR 0xF3] @ ''n Correlativa'',
            estado = estado,
            porcentaje_cumplimiento =
              (real (total_folios v) - real (length folios_incorrectos))
                / real (total_folios v) * 100,
            folios_afectados = map pagina folios_incorrectos\<rparr>))"

section \<open>1.2 Duplicate pages\<close>

text \<open>
  \<open>hashlib.md5(texto.encode()).hexdigest()\<close> is a parameter \<open>md5\<close> of the check: what is
  proved holds for every hash function. \<open>hashes_folios\<close> is the dictionary from a hash to
  the page that first had it.
\<close>

record duplicado =
  folio_original :: nat
  folio_duplicado :: nat

definition paso_duplicados ::
  "(string \<Rightarrow> string) \<Rightarrow> verificador \<Rightarrow> (string \<rightharpoonup> nat) \<times> duplicado list \<Rightarrow> nat
     \<Rightarrow> (string \<rightharpoonup> nat) \<times> duplicado list" where
  "paso_duplicados md5 v acc num_pagina =
     (case extraer_texto v num_pagina of
        Texto t \<Rightarrow>
          (let hash_contenido = md5 t
           in case fst acc hash_contenido of
                Some original \<Rightarrow>
                  (fst acc,
                   snd acc @ [\<lparr>folio_original = original, folio_duplicado = num_pagina + 1\<rparr>])
              | None \<Rightarrow> ((fst acc)(hash_contenido \<mapsto> num_pagina + 1), snd acc))
      | ErrorExtraccion e \<Rightarrow> acc)"

definition duplicados_de :: "(string \<Rightarrow> string) \<Rightarrow> verificador \<Rightarrow> duplicado list" where
  "duplicados_de md5 v =
     snd (foldl (paso_duplicados md5 v) (Map.empty, []) [0..<total_folios v])"

definition verificar_folios_duplicados ::
  "(string \<Rightarrow> string) \<Rightarrow> verificador \<Rightarrow> error + verificador" where
  "verificar_folios_duplicados md5 v =
     (let duplicados = duplicados_de md5 v;
          estado = (if length duplicados = 0 then ''APROBADO'' else ''RECHAZADO'')
      in if total_folios v = 0 then Inl ZeroDivisionError
         else Inr (agregar v
           \<lparr>tipo_verificacion = ''1.2 Folios Duplicados'',
            estado = estado,
            porcentaje_cumplimiento =
              (real (total_folios v) - real (length duplicados)) / real (total_folios v) * 100,
            folios_afectados = map folio_duplicado duplicados\<rparr>))"

section \<open>1.3 Legibility\<close>

text \<open>
  \<open>round(x, 2)\<close>, on the exact value: to the nearest hundredth, a tie going to the even
  one. Python rounds the floating-point product, which can fall on the other side of a
  tie (23 legible characters out of 160 print as 14.37, the exact value rounds to
  14.38); the rounded percentage is only printed in the messages, and no property below
  reads it. The entries of \<open>folios_ilegibles\<close> carry the key \<open>error\<close> only when the
  extraction of the page raised.
\<close>

definition round2 :: "real \<Rightarrow> real" where
  "round2 x =
     (let y = x * 100; f = \<lfloor>y\<rfloor>; d = y - of_int f
      in of_int (if d < 1 / 2 then f else if d > 1 / 2 then f + 1
                 else if even f then f else f + 1) / 100)"

record folio_ilegible =
  folio :: nat
  porcentaje :: real
  error_extraccion :: "string option"

definition porcentaje_legible :: "string \<Rightarrow> real" where
  "porcentaje_legible t =
     (let caracteres_validos = length (filter (\<lambda>c. isalnum c \<or> isspace c) t)
      in real caracteres_validos / real (length t))"

definition paso_ilegibilidad ::
  "verificador \<Rightarrow> folio_ilegible list \<Rightarrow> nat \<Rightarrow> folio_ilegible list" where
  "paso_ilegibilidad v folios_ilegibles num_pagina =
     (case extraer_texto v num_pagina of
        Texto t \<Rightarrow>
          if length t > 0
          then if porcentaje_legible t < umbral_ilegibilidad (config v)
               then folios_ilegibles
                    @ [\<lparr>folio = num_pagina + 1,
                        porcentaje = round2 (porcentaje_legible t * 100),
                        error_extraccion = None\<rparr>]
               else folios_ilegibles
          else folios_ilegibles
      | ErrorExtraccion e \<Rightarrow>
          folios_ilegibles
          @ [\<lparr>folio = num_pagina + 1, porcentaje = 0, error_extraccion = Some e\<rparr>])"

definition folios_ilegibles_de :: "verificador \<Rightarrow> folio_ilegible list" where
  "folios_ilegibles_de v = foldl (paso_ilegibilidad v) [] [0..<total_folios v]"

definition verificar_ilegibilidad :: "verificador \<Rightarrow> error + verificador" where
  "verificar_ilegibilidad v =
     (let folios_ilegibles = folios_ilegibles_de v;
          estado =
            (if length folios_ilegibles = 0 then ''APROBADO''
             else if real (length folios_ilegibles) \<le> real (total_folios v) * (5 / 100)
                  then ''OBSERVADO''
             else ''RECHAZADO'')
      in if total_folios v = 0 then Inl ZeroDivisionError
         else Inr (agregar v
           \<lparr>tipo_verificacion = ''1.3 Ilegibilidad de Informaci'' @ [CHR 0xF3] @ ''n'',
            estado = estado,
            porcentaje_cumplimiento =
              (real (total_folios v) - real (length folios_ilegibles))
                / real (total_folios v) * 100,
            folios_afectados = map folio folios_ilegibles\<rparr>))"

section \<open>difflib.SequenceMatcher\<close>

text \<open>
  \<open>_calcular_similitud\<close> returns \<open>SequenceMatcher(None, texto1, texto2).ratio()\<close> of the
  Python standard library. The definitions follow \<open>difflib.py\<close> with \<open>isjunk = None\<close> and
  \<open>autojunk = True\<close>: no element is junk, so the two loops of \<open>find_longest_match\<close> that
  extend a match over junk never run and are left out; an element of \<open>b\<close> is popular, and
  dropped from \<open>b2j\<close>, when \<open>b\<close> has at least 200 elements and the element occurs more
  than \<open>len(b) // 100 + 1\<close> times. \<open>b2j\<close> maps an element to the increasing list of its
  indices in \<open>b\<close>.
\<close>

definition popular :: "string \<Rightarrow> char \<Rightarrow> bool" where
  "popular b elt = (length b \<ge> 200 \<and> count_list b elt > length b div 100 + 1)"

definition b2j :: "string \<Rightarrow> char \<Rightarrow> nat list" where
  "b2j b elt = (if popular b elt then [] else filter (\<lambda>j. b ! j = elt) [0..<length b])"

type_synonym bloque = "nat \<times> nat \<times> nat"

fun bucle_j ::
  "(int \<rightharpoonup> nat) \<Rightarrow> nat \<Rightarrow> nat \<Rightarrow> nat \<Rightarrow> nat list \<Rightarrow> (int \<rightharpoonup> nat) \<times> bloque
     \<Rightarrow> (int \<rightharpoonup> nat) \<times> bloque" where
  "bucle_j j2len i blo bhi [] st = st"
| "bucle_j j2len i blo bhi (j # js) (newj2len, besti, bestj, bestsize) =
     (if j < blo then bucle_j j2len i blo bhi js (newj2len, besti, bestj, bestsize)
      else if j \<ge> bhi then (newj2len, besti, bestj, bestsize)
      else let k = (case j2len (int j - 1) of None \<Rightarrow> 0 | Some l \<Rightarrow> l) + 1
           in if k > bestsize
              then bucle_j j2len i blo bhi js (newj2len(int j \<mapsto> k), i + 1 - k, j + 1 - k, k)
              else bucle_j j2len i blo bhi js (newj2len(int j \<mapsto> k), besti, bestj, bestsize))"

fun bucle_i ::
  "string \<Rightarrow> string \<Rightarrow> nat \<Rightarrow> nat \<Rightarrow> nat list \<Rightarrow> (int \<rightharpoonup> nat) \<times> bloque \<Rightarrow> bloque" where
  "bucle_i a b blo bhi [] (j2len, mejor) = mejor"
| "bucle_i a b blo bhi (i # is) (j2len, mejor) =
     bucle_i a b blo bhi is (bucle_j j2len i blo bhi (b2j b (a ! i)) (Map.empty, mejor))"

function extender_atras :: "string \<Rightarrow> string \<Rightarrow> nat \<Rightarrow> nat \<Rightarrow> bloque \<Rightarrow> bloque" where
  "extender_atras a b alo blo (besti, bestj, bestsize) =
     (if besti > alo \<and> bestj > blo \<and> a ! (besti - 1) = b ! (bestj - 1)
      then extender_atras a b alo blo (besti - 1, bestj - 1, bestsize + 1)
      else (besti, bestj, bestsize))"
  by pat_completeness auto
termination
  by (relation "measure (\<lambda>(a, b, alo, blo, besti, bestj, bestsize). besti)") auto

declare extender_atras.simps [simp del]

function extender_adelante :: "string \<Rightarrow> string \<Rightarrow> nat \<Rightarrow> nat \<Rightarrow> bloque \<Rightarrow> bloque" where
  "extender_adelante a b ahi bhi (besti, bestj, bestsize) =
     (if besti + bestsize < ahi \<and> bestj + bestsize < bhi
         \<and> a ! (besti + bestsize) = b ! (bestj + bestsize)
      then extender_adelante a b ahi bhi (besti, bestj, bestsize + 1)
      else (besti, bestj, bestsize))"
  by pat_completeness auto
termination
  by (relation "measure (\<lambda>(a, b, ahi, bhi, besti, bestj, bestsize). ahi - (besti + bestsize))")
     auto

declare extender_adelante.simps [simp del]

definition find_longest_match :: "string \<Rightarrow> string \<Rightarrow> nat \<Rightarrow> nat \<Rightarrow> nat \<Rightarrow> nat \<Rightarrow> bloque" where
  "find_longest_match a b alo ahi blo bhi =
     extender_adelante a b ahi bhi
       (extender_atras a b alo blo
          (bucle_i a b blo bhi [alo..<ahi] (Map.empty, (alo, blo, 0))))"


definition fila_ok :: "nat \<Rightarrow> nat \<Rightarrow> nat \<Rightarrow> (int \<rightharpoonup> nat) \<Rightarrow> bool" where
  "fila_ok alo blo m j2len =
     (\<forall>z l. j2len z = Some l \<longrightarrow> (\<exists>j. z = int j \<and> blo \<le> j \<and> l \<le> j + 1 - blo \<and> l + alo \<le> m))"

definition mejor_ok :: "nat \<Rightarrow> nat \<Rightarrow> nat \<Rightarrow> nat \<Rightarrow> bloque \<Rightarrow> bool" where
  "mejor_ok alo blo m bhi mejor =
     (case mejor of (besti, bestj, bestsize) \<Rightarrow>
        (bestsize = 0 \<and> besti = alo \<and> bestj = blo)
        \<or> (0 < bestsize \<and> alo \<le> besti \<and> besti + bestsize \<le> m \<and> blo \<le> bestj
            \<and> bestj + bestsize \<le> bhi))"

lemma fila_ok_vacia: "fila_ok alo blo m Map.empty"
  by (simp add: fila_ok_def)

lemma mejor_ok_mono: "mejor_ok alo blo m bhi mejor \<Longrightarrow> m \<le> m' \<Longrightarrow> mejor_ok alo blo m' bhi mejor"
  unfolding mejor_ok_def by (auto split: prod.splits)

definition anterior :: "(int \<rightharpoonup> nat) \<Rightarrow> nat \<Rightarrow> nat" where
  "anterior j2len j = (case j2len (int j - 1) of None \<Rightarrow> 0 | Some l \<Rightarrow> l)"

lemma bucle_j_paso:
  "\<not> j < blo \<Longrightarrow> \<not> bhi \<le> j \<Longrightarrow>
   bucle_j j2len i blo bhi (j # js) (nuevo, besti, bestj, bestsize) =
   bucle_j j2len i blo bhi js
     (nuevo(int j \<mapsto> anterior j2len j + 1),
      if anterior j2len j + 1 > bestsize
      then (i + 1 - (anterior j2len j + 1), j + 1 - (anterior j2len j + 1), anterior j2len j + 1)
      else (besti, bestj, bestsize))"
  by (simp add: Let_def anterior_def)

lemma anterior_acotado:
  assumes "fila_ok alo blo i j2len" and "blo \<le> j" and "alo \<le> i"
  shows "anterior j2len j + 1 \<le> j + 1 - blo \<and> anterior j2len j + 1 + alo \<le> Suc i"
proof (cases "j2len (int j - 1)")
  case None
  with assms show ?thesis by (simp add: anterior_def)
next
  case (Some l)
  with assms(1) obtain j' where j': "int j - 1 = int j'" "blo \<le> j'" "l \<le> j' + 1 - blo" "l + alo \<le> i"
    unfolding fila_ok_def by blast
  from j'(1) have "j = Suc j'" by linarith
  with j' Some show ?thesis by (simp add: anterior_def)
qed

lemma bucle_j_ok:
  assumes "fila_ok alo blo i j2len" and "alo \<le> i"
    and "fila_ok alo blo (Suc i) nuevo" and "mejor_ok alo blo (Suc i) bhi mejor"
  shows "fila_ok alo blo (Suc i) (fst (bucle_j j2len i blo bhi js (nuevo, mejor)))
         \<and> mejor_ok alo blo (Suc i) bhi (snd (bucle_j j2len i blo bhi js (nuevo, mejor)))"
  using assms(3,4)
proof (induction js arbitrary: nuevo mejor)
  case Nil
  then show ?case by simp
next
  case (Cons j js)
  obtain besti bestj bestsize where mejor: "mejor = (besti, bestj, bestsize)"
    by (cases mejor) auto
  show ?case
  proof (cases "j < blo")
    case True
    with Cons mejor show ?thesis by simp
  next
    case nblo: False
    show ?thesis
    proof (cases "j \<ge> bhi")
      case True
      with nblo Cons.prems mejor show ?thesis by simp
    next
      case False
      define k where "k = anterior j2len j + 1"
      from anterior_acotado [OF assms(1) _ assms(2), of j] nblo
      have kb: "k \<le> j + 1 - blo" "k + alo \<le> Suc i" "0 < k"
        unfolding k_def by auto
      have fila: "fila_ok alo blo (Suc i) (nuevo(int j \<mapsto> k))"
        using Cons.prems(1) kb nblo unfolding fila_ok_def by auto
      have m1: "mejor_ok alo blo (Suc i) bhi
                 (if k > bestsize then (i + 1 - k, j + 1 - k, k) else (besti, bestj, bestsize))"
        using kb nblo False Cons.prems(2) unfolding mejor_ok_def mejor by auto
      from Cons.IH [OF fila m1] show ?thesis
        unfolding mejor bucle_j_paso [OF nblo False] k_def .
    qed
  qed
qed

lemma bucle_i_ok:
  assumes "fila_ok alo blo i0 j2len" and "alo \<le> i0" and "i0 \<le> ahi"
    and "mejor_ok alo blo i0 bhi mejor"
  shows "mejor_ok alo blo ahi bhi (bucle_i a b blo bhi [i0..<ahi] (j2len, mejor))"
  using assms
proof (induction "ahi - i0" arbitrary: i0 j2len mejor)
  case 0
  then show ?case by simp
next
  case (Suc n)
  then have lt: "i0 < ahi" by simp
  let ?r = "bucle_j j2len i0 blo bhi (b2j b (a ! i0)) (Map.empty, mejor)"
  have paso: "fila_ok alo blo (Suc i0) (fst ?r) \<and> mejor_ok alo blo (Suc i0) bhi (snd ?r)"
    by (rule bucle_j_ok [OF Suc.prems(1,2) fila_ok_vacia mejor_ok_mono [OF Suc.prems(4)]]) simp
  have "mejor_ok alo blo ahi bhi (bucle_i a b blo bhi [Suc i0..<ahi] (fst ?r, snd ?r))"
    using Suc.hyps(2) Suc.prems(2) lt paso by (intro Suc.hyps(1)) auto
  then show ?case using lt by (simp add: upt_conv_Cons)
qed

lemma extender_atras_ok:
  "mejor_ok alo blo ahi bhi mejor \<Longrightarrow> mejor_ok alo blo ahi bhi (extender_atras a b alo blo mejor)"
proof (induction a b alo blo mejor rule: extender_atras.induct)
  case (1 a b alo blo besti bestj bestsize)
  show ?case
  proof (cases "besti > alo \<and> bestj > blo \<and> a ! (besti - 1) = b ! (bestj - 1)")
    case True
    have "mejor_ok alo blo ahi bhi (besti - 1, bestj - 1, bestsize + 1)"
      using "1.prems" True unfolding mejor_ok_def by auto
    from "1.IH" [OF True this] True show ?thesis
      by (subst extender_atras.simps) simp
  next
    case False
    with "1.prems" show ?thesis by (subst extender_atras.simps) auto
  qed
qed

lemma extender_adelante_ok:
  "mejor_ok alo blo ahi bhi mejor \<Longrightarrow> mejor_ok alo blo ahi bhi (extender_adelante a b ahi bhi mejor)"
proof (induction a b ahi bhi mejor rule: extender_adelante.induct)
  case (1 a b ahi bhi besti bestj bestsize)
  show ?case
  proof (cases "besti + bestsize < ahi \<and> bestj + bestsize < bhi
                 \<and> a ! (besti + bestsize) = b ! (bestj + bestsize)")
    case True
    have "mejor_ok alo blo ahi bhi (besti, bestj, bestsize + 1)"
      using "1.prems" True unfolding mejor_ok_def by auto
    from "1.IH" [OF True this] True show ?thesis
      by (subst extender_adelante.simps) simp
  next
    case False
    with "1.prems" show ?thesis by (subst extender_adelante.simps) auto
  qed
qed

lemma find_longest_match_acotado:
  assumes "find_longest_match a b alo ahi blo bhi = (i, j, k)" and "0 < k"
  shows "alo \<le> i \<and> i + k \<le> ahi \<and> blo \<le> j \<and> j + k \<le> bhi"
proof -
  let ?m = "bucle_i a b blo bhi [alo..<ahi] (Map.empty, (alo, blo, 0))"
  have "mejor_ok alo blo ahi bhi ?m"
  proof (cases "alo \<le> ahi")
    case True
    show ?thesis
      by (rule bucle_i_ok [OF fila_ok_vacia _ True]) (simp_all add: mejor_ok_def)
  next
    case False
    then show ?thesis by (simp add: mejor_ok_def)
  qed
  then have "mejor_ok alo blo ahi bhi (find_longest_match a b alo ahi blo bhi)"
    unfolding find_longest_match_def by (intro extender_adelante_ok extender_atras_ok)
  with assms show ?thesis by (simp add: mejor_ok_def)
qed

text \<open>
  The loop of \<open>get_matching_blocks\<close> over \<open>queue\<close>. Python pops and appends at the end
  of its list; here the head of the list is that end. The blocks found are appended to
  \<open>matching_blocks\<close>.
\<close>

type_synonym rango = "nat \<times> nat \<times> nat \<times> nat"

definition peso :: "rango list \<Rightarrow> nat" where
  "peso queue = sum_list (map (\<lambda>(alo, ahi, blo, bhi). 2 * (ahi - alo) + 1) queue)"

function bucle_cola :: "string \<Rightarrow> string \<Rightarrow> rango list \<Rightarrow> bloque list \<Rightarrow> bloque list" where
  "bucle_cola a b [] matching_blocks = matching_blocks"
| "bucle_cola a b ((alo, ahi, blo, bhi) # queue) matching_blocks =
     (case find_longest_match a b alo ahi blo bhi of
        (i, j, k) \<Rightarrow>
          if k \<noteq> 0
          then bucle_cola a b
                 ((if i + k < ahi \<and> j + k < bhi then [(i + k, ahi, j + k, bhi)] else [])
                  @ (if alo < i \<and> blo < j then [(alo, i, blo, j)] else [])
                  @ queue)
                 (matching_blocks @ [(i, j, k)])
          else bucle_cola a b queue matching_blocks)"
  by pat_completeness auto
termination
proof (relation "measure (\<lambda>(a, b, queue, mb). peso queue)", goal_cases)
  case 1
  show ?case by simp
next
  case (2 a b alo ahi blo bhi queue mb x y xa ya)
  then have "find_longest_match a b alo ahi blo bhi = (x, xa, ya)" and "0 < ya"
    by simp_all
  from find_longest_match_acotado [OF this] have "alo \<le> x \<and> x + ya \<le> ahi"
    by simp
  with \<open>0 < ya\<close> show ?case
    by (auto simp: peso_def)
next
  case 3
  then show ?case by (simp add: peso_def)
qed

declare bucle_cola.simps [simp del]

text \<open>
  After the loop the blocks are sorted and adjacent blocks are merged; the sentinel
  \<open>(la, lb, 0)\<close> is appended.
\<close>

definition unir_adyacentes :: "bloque list \<Rightarrow> bloque list" where
  "unir_adyacentes matching_blocks =
     (let (i1, j1, k1, non_adjacent) =
            foldl (\<lambda>(i1, j1, k1, non_adjacent) (i2, j2, k2).
                     if i1 + k1 = i2 \<and> j1 + k1 = j2 then (i1, j1, k1 + k2, non_adjacent)
                     else (i2, j2, k2,
                           if k1 \<noteq> 0 then non_adjacent @ [(i1, j1, k1)] else non_adjacent))
                  (0, 0, 0, []) matching_blocks
      in if k1 \<noteq> 0 then non_adjacent @ [(i1, j1, k1)] else non_adjacent)"

definition get_matching_blocks :: "string \<Rightarrow> string \<Rightarrow> bloque list" where
  "get_matching_blocks a b =
     (let la = length a; lb = length b;
          matching_blocks = sort (bucle_cola a b [(0, la, 0, lb)] [])
      in unir_adyacentes matching_blocks @ [(la, lb, 0)])"

definition calculate_ratio :: "nat \<Rightarrow> nat \<Rightarrow> real" where
  "calculate_ratio matches length_total =
     (if length_total \<noteq> 0 then 2 * real matches / real length_total else 1)"

definition ratio :: "string \<Rightarrow> string \<Rightarrow> real" where
  "ratio a b =
     (let matches = sum_list (map (\<lambda>(i, j, k). k) (get_matching_blocks a b))
      in calculate_ratio matches (length a + length b))"


text \<open>
  The length of the common run of elements that are not popular and end at \<open>a[i]\<close> and
  \<open>a[j]\<close>: what \<open>j2len\<close> holds when a text is compared with itself.
\<close>

fun comun :: "string \<Rightarrow> nat \<Rightarrow> nat \<Rightarrow> nat" where
  "comun a 0 j = (if a ! 0 = a ! j \<and> \<not> popular a (a ! 0) then 1 else 0)"
| "comun a (Suc i) 0 = (if a ! Suc i = a ! 0 \<and> \<not> popular a (a ! Suc i) then 1 else 0)"
| "comun a (Suc i) (Suc j) =
     (if a ! Suc i = a ! Suc j \<and> \<not> popular a (a ! Suc i) then comun a i j + 1 else 0)"

definition previo :: "string \<Rightarrow> nat \<Rightarrow> nat \<Rightarrow> nat" where
  "previo a i j =
     (case i of 0 \<Rightarrow> 0 | Suc i' \<Rightarrow> (case j of 0 \<Rightarrow> 0 | Suc j' \<Rightarrow> comun a i' j'))"

definition valor :: "(int \<rightharpoonup> nat) \<Rightarrow> int \<Rightarrow> nat" where
  "valor m z = (case m z of None \<Rightarrow> 0 | Some l \<Rightarrow> l)"


section \<open>1.3 Internal similarity\<close>

definition calcular_similitud :: "string \<Rightarrow> string \<Rightarrow> real" where
  "calcular_similitud texto1 texto2 = ratio texto1 texto2"

record seccion =
  folio_seccion :: nat
  texto :: string

record caso_plagio =
  folio_1 :: nat
  folio_2 :: nat
  similitud :: real

definition paso_secciones :: "verificador \<Rightarrow> seccion list \<Rightarrow> nat \<Rightarrow> seccion list" where
  "paso_secciones v secciones_texto num_pagina =
     (case extraer_texto v num_pagina of
        Texto t \<Rightarrow>
          if length (strip t) > 100
          then secciones_texto @ [\<lparr>folio_seccion = num_pagina + 1, texto = strip t\<rparr>]
          else secciones_texto
      | ErrorExtraccion e \<Rightarrow> secciones_texto)"

definition secciones_texto_de :: "verificador \<Rightarrow> seccion list" where
  "secciones_texto_de v = foldl (paso_secciones v) [] [0..<total_folios v]"

definition paso_casos ::
  "verificador \<Rightarrow> seccion list \<Rightarrow> nat \<Rightarrow> caso_plagio list \<Rightarrow> nat \<Rightarrow> caso_plagio list" where
  "paso_casos v secciones_texto i casos_plagio j =
     (let similitud = calcular_similitud (texto (secciones_texto ! i))
                                         (texto (secciones_texto ! j))
      in if similitud \<ge> umbral_plagio (config v)
         then casos_plagio
              @ [\<lparr>folio_1 = folio_seccion (secciones_texto ! i),
                  folio_2 = folio_seccion (secciones_texto ! j),
                  similitud = round2 (similitud * 100)\<rparr>]
         else casos_plagio)"

definition casos_plagio_de :: "verificador \<Rightarrow> seccion list \<Rightarrow> caso_plagio list" where
  "casos_plagio_de v secciones_texto =
     foldl (\<lambda>casos_plagio i.
              foldl (paso_casos v secciones_texto i) casos_plagio
                    [i + 1..<length secciones_texto])
           [] [0..<length secciones_texto]"

text \<open>
  \<open>list(set(...))\<close> keeps one copy of every page number; the order in which a Python set
  is listed is not specified, the model keeps the order of first occurrence.
\<close>

definition verificar_plagio :: "verificador \<Rightarrow> error + verificador" where
  "verificar_plagio v =
     (let secciones_texto = secciones_texto_de v;
          casos_plagio = casos_plagio_de v secciones_texto;
          estado = (if length casos_plagio = 0 then ''APROBADO'' else ''OBSERVADO'')
      in Inr (agregar v
           \<lparr>tipo_verificacion = ''1.3 Verificaci'' @ [CHR 0xF3] @ ''n de Plagio'',
            estado = estado,
            porcentaje_cumplimiento =
              100 - (real (length casos_plagio) / real (max (length secciones_texto) 1) * 100),
            folios_afectados =
              remdups (map folio_1 casos_plagio @ map folio_2 casos_plagio)\<rparr>))"

section \<open>1.3 Spelling\<close>

text \<open>
  The LanguageTool object is an external service: \<open>check\<close> returns the messages of the
  matches found in a text or raises, \<open>close\<close> may raise, and so may the constructor
  (\<open>None\<close> below). Everything in the outer \<open>try\<close> of \<open>_verificar_ortografia\<close>, the final
  division included, ends in the handler that records \<open>NO PROCESADO\<close>.
\<close>

record herramienta =
  check :: "string \<Rightarrow> string list option"
  close_ok :: bool

record error_folio =
  folio_error :: nat
  cantidad_errores :: nat
  ejemplos :: "string list"

definition paso_ortografia ::
  "herramienta \<Rightarrow> verificador \<Rightarrow> error_folio list \<times> nat \<Rightarrow> nat \<Rightarrow> error_folio list \<times> nat" where
  "paso_ortografia tool v acc num_pagina =
     (case extraer_texto v num_pagina of
        Texto t \<Rightarrow>
          if length (strip t) > 0
          then (case check tool t of
                  Some matches \<Rightarrow>
                    if length matches > 0
                    then (fst acc @ [\<lparr>folio_error = num_pagina + 1,
                                      cantidad_errores = length matches,
                                      ejemplos = map (take 80) (take 3 matches)\<rparr>],
                          snd acc + length matches)
                    else acc
                | None \<Rightarrow> acc)
          else acc
      | ErrorExtraccion e \<Rightarrow> acc)"

definition tipo_ortografia :: string where
  "tipo_ortografia = ''1.3 Verificaci'' @ [CHR 0xF3] @ ''n Ortogr'' @ [CHR 0xE1] @ ''fica''"

text \<open>The body of the outer \<open>try\<close>; \<open>None\<close> when an exception leaves it.\<close>

definition cuerpo_ortografia ::
  "(string \<Rightarrow> herramienta option) \<Rightarrow> verificador \<Rightarrow> ResultadoVerificacion option" where
  "cuerpo_ortografia language_tool v =
     (case language_tool (idioma_ortografia (config v)) of
        None \<Rightarrow> None
      | Some tool \<Rightarrow>
          (let acc = foldl (paso_ortografia tool v) ([], 0) [0..<min (total_folios v) 50];
               errores_por_folio = fst acc;
               total_errores = snd acc
           in if \<not> close_ok tool then None
              else let estado =
                         (if total_errores = 0 then ''APROBADO''
                          else if total_errores \<le> total_folios v * 5 then ''OBSERVADO''
                          else ''RECHAZADO'')
                   in if total_folios v = 0 then None
                      else Some
                        \<lparr>tipo_verificacion = tipo_ortografia,
                         estado = estado,
                         porcentaje_cumplimiento =
                           max 0 (100 - real total_errores / real (total_folios v)),
                         folios_afectados = map folio_error errores_por_folio\<rparr>))"

definition verificar_ortografia ::
  "(string \<Rightarrow> herramienta option) \<Rightarrow> verificador \<Rightarrow> error + verificador" where
  "verificar_ortografia language_tool v =
     Inr (agregar v
       (case cuerpo_ortografia language_tool v of
          Some resultado \<Rightarrow> resultado
        | None \<Rightarrow>
            \<lparr>tipo_verificacion = tipo_ortografia, estado = ''NO PROCESADO'',
             porcentaje_cumplimiento = 0, folios_afectados = []\<rparr>))"

section \<open>The pipeline\<close>

text \<open>
  \<open>PyPDF2.PdfReader(ruta)\<close> is the parameter \<open>pdf_reader\<close>: the pages of the document, or
  \<open>None\<close> when loading raises.
\<close>

definition cargar_documento ::
  "(string \<Rightarrow> extraccion list option) \<Rightarrow> verificador \<Rightarrow> bool \<times> verificador" where
  "cargar_documento pdf_reader v =
     (case pdf_reader (ruta_documento v) of
        Some paginas \<Rightarrow>
          (True, v\<lparr>documento_pdf := Some paginas, total_folios := length paginas\<rparr>)
      | None \<Rightarrow>
          (False, agregar v
             \<lparr>tipo_verificacion = ''Carga de Documento'', estado = ''RECHAZADO'',
              porcentaje_cumplimiento = 0, folios_afectados = []\<rparr>))"

record resumen =
  total_verificaciones :: nat
  aprobados :: nat
  observados :: nat
  rechazados :: nat
  estado_global :: string

datatype informe =
    Informe string nat resumen "ResultadoVerificacion list"
  | InformeError string string "ResultadoVerificacion list"

text \<open>The dates of the two dictionaries are not modelled.\<close>

definition preparar_resultados :: "verificador \<Rightarrow> informe" where
  "preparar_resultados v =
     Informe (ruta_documento v) (total_folios v)
       \<lparr>total_verificaciones = length (resultados v),
        aprobados = length (filter (\<lambda>r. estado r = ''APROBADO'') (resultados v)),
        observados = length (filter (\<lambda>r. estado r = ''OBSERVADO'') (resultados v)),
        rechazados = length (filter (\<lambda>r. estado r = ''RECHAZADO'') (resultados v)),
        estado_global = determinar_estado_global v\<rparr>
       (resultados v)"

definition generar_resultado_error :: "verificador \<Rightarrow> informe" where
  "generar_resultado_error v =
     InformeError (ruta_documento v) ''No se pudo procesar el documento'' (resultados v)"

text \<open>An exception of one call leaves \<open>ejecutar_verificacion_completa\<close> at once.\<close>

definition luego :: "error + 'a \<Rightarrow> ('a \<Rightarrow> error + 'b) \<Rightarrow> error + 'b" where
  "luego r f = (case r of Inl e \<Rightarrow> Inl e | Inr x \<Rightarrow> f x)"

definition ejecutar_verificacion_completa ::
  "(string \<Rightarrow> extraccion list option) \<Rightarrow> (string \<Rightarrow> string) \<Rightarrow> (string \<Rightarrow> herramienta option)
     \<Rightarrow> verificador \<Rightarrow> error + informe" where
  "ejecutar_verificacion_completa pdf_reader md5 language_tool v =
     (case cargar_documento pdf_reader v of
        (False, v0) \<Rightarrow> Inr (generar_resultado_error v0)
      | (True, v0) \<Rightarrow>
          luego (verificar_hojas_blanco v0) (\<lambda>v1.
          luego (verificar_foliacion v1) (\<lambda>v2.
          luego (verificar_folios_duplicados md5 v2) (\<lambda>v3.
          luego (verificar_ilegibilidad v3) (\<lambda>v4.
          luego (verificar_plagio v4) (\<lambda>v5.
          luego (if verificar_ortografia_cfg (config v5)
                 then verificar_ortografia language_tool v5 else Inr v5) (\<lambda>v6.
          Inr (preparar_resultados v6))))))))"

section \<open>Example documents and auxiliary notions of the proofs\<close>

definition resultado_ejemplo :: "string \<Rightarrow> ResultadoVerificacion" where
  "resultado_ejemplo e =
     \<lparr>tipo_verificacion = ''ejemplo'', estado = e, porcentaje_cumplimiento = 100,
      folios_afectados = []\<rparr>"

definition cargado :: "extraccion list \<Rightarrow> verificador" where
  "cargado paginas =
     (init_verificador ''doc.pdf'' None)
       \<lparr>documento_pdf := Some paginas, total_folios := length paginas\<rparr>"

definition doc_tres :: "extraccion list" where
  "doc_tres = [Texto ''Contenido del folio uno'', Texto ''  '', ErrorExtraccion ''fallo'']"

definition inconsistencias_de_pagina :: "verificador \<Rightarrow> nat \<Rightarrow> inconsistencia list" where
  "inconsistencias_de_pagina v i =
     (case extraer_texto v i of
        Texto t \<Rightarrow>
          (case primer_folio patrones t of
             Inl e \<Rightarrow> []
           | Inr f \<Rightarrow>
               if f \<noteq> Some (i + 1)
               then [\<lparr>pagina = i + 1, esperado = i + 1, encontrado = f\<rparr>]
               else [])
      | ErrorExtraccion e \<Rightarrow> [])"

definition doc_foliado :: "extraccion list" where
  "doc_foliado =
     [Texto ''Folio: 1'', Texto (''12'' @ [salto] @ ''Foja 2''), Texto ''3 de marzo'',
      Texto (''texto'' @ [salto] @ ''4''), Texto ''FOLIO 5'', Texto ''hoja6'',
      Texto ''folio 7'', Texto ''folio 8'', Texto ''folio 9'', Texto ''folio 10'',
      Texto ''folio 11'', Texto ''folio 12'', Texto ''folio 13'', Texto ''folio 14'',
      Texto ''folio 15'', Texto ''folio 16'', Texto ''folio 17'', Texto ''folio 18'',
      Texto ''folio 19'', Texto (''P'' @ [CHR 0xC1] @ ''GINA : 20'')]"

definition texto_desbordado :: string where
  "texto_desbordado = ''folio '' @ replicate 4301 CHR ''1''"


definition ilegibles_de_pagina :: "verificador \<Rightarrow> nat \<Rightarrow> folio_ilegible list" where
  "ilegibles_de_pagina v i =
     (case extraer_texto v i of
        Texto t \<Rightarrow>
          if length t > 0 \<and> porcentaje_legible t < umbral_ilegibilidad (config v)
          then [\<lparr>folio = i + 1, porcentaje = round2 (porcentaje_legible t * 100),
                 error_extraccion = None\<rparr>]
          else []
      | ErrorExtraccion e \<Rightarrow> [\<lparr>folio = i + 1, porcentaje = 0, error_extraccion = Some e\<rparr>])"


definition hash_de :: "(string \<Rightarrow> string) \<Rightarrow> verificador \<Rightarrow> nat \<Rightarrow> string option" where
  "hash_de md5 v i =
     (case extraer_texto v i of Texto t \<Rightarrow> Some (md5 t) | ErrorExtraccion e \<Rightarrow> None)"

definition doc_copias :: "extraccion list" where
  "doc_copias = [Texto ''acta'', Texto ''acta'', Texto ''acta'']"

definition doc_escenario :: "extraccion list" where
  "doc_escenario = [Texto ''acta de audiencia'', Texto [], Texto ''acta de audiencia'']"

definition primeros :: "(string \<Rightarrow> string) \<Rightarrow> verificador \<Rightarrow> nat \<Rightarrow> (string \<rightharpoonup> nat) \<Rightarrow> bool" where
  "primeros md5 v n hashes =
     (\<forall>x p. hashes x = Some p \<longleftrightarrow>
        (\<exists>i<n. p = Suc i \<and> hash_de md5 v i = Some x \<and> (\<forall>k<i. hash_de md5 v k \<noteq> Some x)))"

definition repetido :: "(string \<Rightarrow> string) \<Rightarrow> verificador \<Rightarrow> nat \<Rightarrow> bool" where
  "repetido md5 v j = (\<exists>i<j. hash_de md5 v j \<noteq> None \<and> hash_de md5 v i = hash_de md5 v j)"

definition original_ok :: "(string \<Rightarrow> string) \<Rightarrow> verificador \<Rightarrow> duplicado \<Rightarrow> bool" where
  "original_ok md5 v d =
     (\<exists>i j. folio_original d = Suc i \<and> folio_duplicado d = Suc j \<and> i < j
        \<and> hash_de md5 v j \<noteq> None \<and> hash_de md5 v i = hash_de md5 v j
        \<and> (\<forall>k<i. hash_de md5 v k \<noteq> hash_de md5 v j))"

definition lector_vacio :: "string \<Rightarrow> extraccion list option" where
  "lector_vacio ruta = Some []"

definition sin_herramienta :: "string \<Rightarrow> herramienta option" where
  "sin_herramienta idioma = None"

definition texto_largo :: string where
  "texto_largo = replicate 101 CHR ''a''"

definition doc_cuatro :: "extraccion list" where
  "doc_cuatro = [Texto texto_largo, Texto texto_largo, Texto texto_largo, Texto texto_largo]"

definition secciones_de_pagina :: "verificador \<Rightarrow> nat \<Rightarrow> seccion list" where
  "secciones_de_pagina v i =
     (case extraer_texto v i of
        Texto t \<Rightarrow>
          if length (strip t) > 100 then [\<lparr>folio_seccion = i + 1, texto = strip t\<rparr>] else []
      | ErrorExtraccion e \<Rightarrow> [])"

definition lector_tres :: "string \<Rightarrow> extraccion list option" where
  "lector_tres ruta = Some doc_tres"

section \<open>Properties of the aggregation\<close>

lemma filter_pos_iff: "0 < length (filter P xs) \<longleftrightarrow> (\<exists>x\<in>set xs. P x)"
  by (induction xs) auto

text \<open>
  Claim C1. The global state is \<open>NO ADMISIBLE\<close> as soon as one result is \<open>RECHAZADO\<close>;
  otherwise \<open>ADMISIBLE CON OBSERVACIONES\<close> as soon as one result is \<open>OBSERVADO\<close>;
  otherwise \<open>ADMISIBLE\<close>. Results in state \<open>NO PROCESADO\<close> take no part: removing them
  leaves the global state unchanged, and a list of results that are all \<open>APROBADO\<close> or
  \<open>NO PROCESADO\<close> gives \<open>ADMISIBLE\<close>.
\<close>

theorem estado_global_prioridad:
  "determinar_estado_global v =
     (if \<exists>r\<in>set (resultados v). estado r = ''RECHAZADO'' then ''NO ADMISIBLE''
      else if \<exists>r\<in>set (resultados v). estado r = ''OBSERVADO''
           then ''ADMISIBLE CON OBSERVACIONES''
      else ''ADMISIBLE'')
   \<and> determinar_estado_global
       (v\<lparr>resultados := filter (\<lambda>r. estado r \<noteq> ''NO PROCESADO'') (resultados v)\<rparr>)
     = determinar_estado_global v
   \<and> ((\<forall>r\<in>set (resultados v). estado r = ''APROBADO'' \<or> estado r = ''NO PROCESADO'')
        \<longrightarrow> determinar_estado_global v = ''ADMISIBLE'')"
proof -
  have prio: "determinar_estado_global w =
     (if \<exists>r\<in>set (resultados w). estado r = ''RECHAZADO'' then ''NO ADMISIBLE''
      else if \<exists>r\<in>set (resultados w). estado r = ''OBSERVADO''
           then ''ADMISIBLE CON OBSERVACIONES''
      else ''ADMISIBLE'')" for w
    unfolding determinar_estado_global_def Let_def filter_pos_iff by simp
  have excl: "determinar_estado_global
       (v\<lparr>resultados := filter (\<lambda>r. estado r \<noteq> ''NO PROCESADO'') (resultados v)\<rparr>)
     = determinar_estado_global v"
    unfolding prio by auto
  have aprob: "(\<forall>r\<in>set (resultados v). estado r = ''APROBADO'' \<or> estado r = ''NO PROCESADO'')
        \<longrightarrow> determinar_estado_global v = ''ADMISIBLE''"
    unfolding prio by fastforce
  from prio [of v] excl aprob show ?thesis by blast
qed

theorem estado_global_prioridad_witness:
  "determinar_estado_global
     ((init_verificador ''doc.pdf'' None)
        \<lparr>resultados := [resultado_ejemplo ''APROBADO'', resultado_ejemplo ''APROBADO'',
                        resultado_ejemplo ''NO PROCESADO'']\<rparr>) = ''ADMISIBLE''"
  using estado_global_prioridad
    [of "(init_verificador ''doc.pdf'' None)
        \<lparr>resultados := [resultado_ejemplo ''APROBADO'', resultado_ejemplo ''APROBADO'',
                        resultado_ejemplo ''NO PROCESADO'']\<rparr>"]
  by (simp add: resultado_ejemplo_def)

section \<open>A text compared with itself\<close>

lemma anterior_valor: "anterior m j = valor m (int j - 1)"
  by (simp add: anterior_def valor_def)

lemma comun_sym: "comun a i j = comun a j i"
proof (induction i arbitrary: j)
  case 0
  show ?case by (cases j) auto
next
  case (Suc i)
  show ?case
  proof (cases j)
    case 0
    then show ?thesis by auto
  next
    case (Suc j')
    with Suc.IH [of j'] show ?thesis by auto
  qed
qed

lemma comun_pos: "0 < comun a i j \<Longrightarrow> a ! i = a ! j \<and> \<not> popular a (a ! i)"
  by (cases i; cases j) (auto split: if_splits)

lemma comun_paso:
  "a ! i = a ! j \<Longrightarrow> \<not> popular a (a ! i) \<Longrightarrow> comun a i j = previo a i j + 1"
  by (cases i; cases j) (auto simp: previo_def)

lemma comun_diag: "comun a i j \<le> comun a i i"
proof (induction i arbitrary: j)
  case 0
  then show ?case by simp
next
  case (Suc i)
  show ?case
  proof (cases j)
    case 0
    then show ?thesis by simp
  next
    case (Suc j')
    with Suc.IH [of j'] show ?thesis by simp
  qed
qed

lemma comun_le: "comun a i j \<le> Suc i"
proof (induction i arbitrary: j)
  case 0
  then show ?case by simp
next
  case (Suc i)
  show ?case
  proof (cases j)
    case 0
    then show ?thesis by simp
  next
    case (Suc j')
    with Suc.IH [of j'] show ?thesis by simp
  qed
qed


lemma valor_upd: "valor (m(z \<mapsto> l)) z' = (if z' = z then l else valor m z')"
  by (simp add: valor_def)

lemma bucle_j_refl:
  assumes "i < n" and fila: "\<forall>j<n. anterior j2len j = previo a i j"
  shows "sorted_wrt (<) js \<Longrightarrow>
         (\<forall>j\<in>set js. j < n \<and> a ! j = a ! i \<and> \<not> popular a (a ! i)) \<Longrightarrow>
         bi + bs \<le> Suc i \<Longrightarrow>
         (\<forall>i'<i. \<forall>j'<n. comun a i' j' \<le> bs) \<Longrightarrow>
         (\<forall>j'<n. j' \<notin> set js \<longrightarrow> comun a i j' \<le> bs) \<Longrightarrow>
         (\<forall>j'<n. j' \<notin> set js \<longrightarrow> valor nuevo (int j') = comun a i j') \<Longrightarrow>
         valor nuevo (- 1) = 0 \<Longrightarrow>
         \<exists>nuevo' bi' bs'.
            bucle_j j2len i 0 n js (nuevo, bi, bi, bs) = (nuevo', bi', bi', bs')
            \<and> bi' + bs' \<le> Suc i
            \<and> (\<forall>i'<Suc i. \<forall>j'<n. comun a i' j' \<le> bs')
            \<and> (\<forall>j'<n. valor nuevo' (int j') = comun a i j')
            \<and> valor nuevo' (- 1) = 0"
proof (induction js arbitrary: nuevo bi bs)
  case Nil
  then show ?case by (auto simp: less_Suc_eq)
next
  case (Cons j js)
  from Cons.prems(2) have j: "j < n" "a ! j = a ! i" "\<not> popular a (a ! i)"
    by auto
  define k where "k = anterior j2len j + 1"
  have k: "k = comun a i j"
    using fila j comun_paso [of a i j] by (simp add: k_def)
  define bs1 where "bs1 = max bs k"
  define bi1 where "bi1 = (if k > bs then i + 1 - k else bi)"
  have igual: "j = i" if "k > bs"
  proof (rule ccontr)
    assume "j \<noteq> i"
    then consider "j < i" | "i < j" by linarith
    then show False
    proof cases
      case 1
      with Cons.prems(4) assms(1) have "comun a j i \<le> bs" by blast
      with that k show False by (simp add: comun_sym [of a i j])
    next
      case 2
      with Cons.prems(1) have "i \<notin> set (j # js)" by auto
      with Cons.prems(5) assms(1) have "comun a i i \<le> bs" by blast
      with comun_diag [of a i j] that k show False by simp
    qed
  qed
  have paso: "bucle_j j2len i 0 n (j # js) (nuevo, bi, bi, bs)
              = bucle_j j2len i 0 n js (nuevo(int j \<mapsto> k), bi1, bi1, bs1)"
    using j(1) igual by (subst bucle_j_paso) (auto simp: k_def bi1_def bs1_def max_def)
  have p1: "sorted_wrt (<) js" using Cons.prems(1) by simp
  have p2: "\<forall>j\<in>set js. j < n \<and> a ! j = a ! i \<and> \<not> popular a (a ! i)"
    using Cons.prems(2) by simp
  have p3: "bi1 + bs1 \<le> Suc i"
    using Cons.prems(3) comun_le [of a i j] k by (auto simp: bi1_def bs1_def max_def)
  have p4: "\<forall>i'<i. \<forall>j'<n. comun a i' j' \<le> bs1"
    using Cons.prems(4) by (auto simp: bs1_def max_def intro: le_trans)
  have p5: "\<forall>j'<n. j' \<notin> set js \<longrightarrow> comun a i j' \<le> bs1"
  proof (intro allI impI)
    fix j' assume "j' < n" "j' \<notin> set js"
    show "comun a i j' \<le> bs1"
    proof (cases "j' = j")
      case True
      then show ?thesis by (simp add: bs1_def k)
    next
      case False
      with \<open>j' \<notin> set js\<close> \<open>j' < n\<close> Cons.prems(5) have "comun a i j' \<le> bs" by simp
      then show ?thesis by (simp add: bs1_def)
    qed
  qed
  have p6: "\<forall>j'<n. j' \<notin> set js \<longrightarrow> valor (nuevo(int j \<mapsto> k)) (int j') = comun a i j'"
    using Cons.prems(6) k by (auto simp: valor_upd)
  have p7: "valor (nuevo(int j \<mapsto> k)) (- 1) = 0"
    using Cons.prems(7) by (simp add: valor_upd)
  from Cons.IH [OF p1 p2 p3 p4 p5 p6 p7] show ?case
    unfolding paso .
qed


lemma b2j_ordenado: "sorted_wrt (<) (b2j a c)"
  by (simp add: b2j_def sorted_wrt_filter)

lemma b2j_miembro: "j \<in> set (b2j a c) \<longleftrightarrow> j < length a \<and> a ! j = c \<and> \<not> popular a c"
  by (auto simp: b2j_def)

lemma comun_cero:
  assumes "j < length a" and "j \<notin> set (b2j a (a ! i))"
  shows "comun a i j = 0"
proof (rule ccontr)
  assume "comun a i j \<noteq> 0"
  then have "0 < comun a i j" by simp
  from comun_pos [OF this] assms show False unfolding b2j_miembro by metis
qed

lemma bucle_i_refl:
  assumes n: "n = length a"
  shows "i0 \<le> n \<Longrightarrow> (\<forall>j<n. anterior j2len j = previo a i0 j) \<Longrightarrow> bi + bs \<le> i0 \<Longrightarrow>
         (\<forall>i'<i0. \<forall>j'<n. comun a i' j' \<le> bs) \<Longrightarrow>
         \<exists>bi' bs'. bucle_i a a 0 n [i0..<n] (j2len, bi, bi, bs) = (bi', bi', bs')
                    \<and> bi' + bs' \<le> n"
proof (induction "n - i0" arbitrary: i0 j2len bi bs)
  case 0
  then show ?case by simp
next
  case (Suc m)
  then have lt: "i0 < n" by simp
  have "\<exists>nuevo' bi' bs'.
          bucle_j j2len i0 0 n (b2j a (a ! i0)) (Map.empty, bi, bi, bs) = (nuevo', bi', bi', bs')
          \<and> bi' + bs' \<le> Suc i0
          \<and> (\<forall>i'<Suc i0. \<forall>j'<n. comun a i' j' \<le> bs')
          \<and> (\<forall>j'<n. valor nuevo' (int j') = comun a i0 j')
          \<and> valor nuevo' (- 1) = 0"
  proof (rule bucle_j_refl [OF lt Suc.prems(2) b2j_ordenado])
    show "\<forall>j\<in>set (b2j a (a ! i0)). j < n \<and> a ! j = a ! i0 \<and> \<not> popular a (a ! i0)"
      by (simp add: b2j_miembro n)
    show "bi + bs \<le> Suc i0" using Suc.prems(3) by simp
    show "\<forall>i'<i0. \<forall>j'<n. comun a i' j' \<le> bs" by (rule Suc.prems(4))
    show "\<forall>j'<n. j' \<notin> set (b2j a (a ! i0)) \<longrightarrow> comun a i0 j' \<le> bs"
      using comun_cero [of _ a i0] n by simp
    show "\<forall>j'<n. j' \<notin> set (b2j a (a ! i0)) \<longrightarrow> valor Map.empty (int j') = comun a i0 j'"
      using comun_cero [of _ a i0] n by (simp add: valor_def)
    show "valor Map.empty (- 1) = 0" by (simp add: valor_def)
  qed
  then obtain nuevo' bi' bs' where
    r: "bucle_j j2len i0 0 n (b2j a (a ! i0)) (Map.empty, bi, bi, bs) = (nuevo', bi', bi', bs')"
    and b: "bi' + bs' \<le> Suc i0"
    and d: "\<forall>i'<Suc i0. \<forall>j'<n. comun a i' j' \<le> bs'"
    and f: "\<forall>j'<n. valor nuevo' (int j') = comun a i0 j'"
    and z: "valor nuevo' (- 1) = 0"
    by blast
  have fila: "\<forall>j<n. anterior nuevo' j = previo a (Suc i0) j"
  proof (intro allI impI)
    fix j assume "j < n"
    show "anterior nuevo' j = previo a (Suc i0) j"
    proof (cases j)
      case 0
      with z show ?thesis by (simp add: anterior_valor previo_def)
    next
      case (Suc j')
      with f \<open>j < n\<close> show ?thesis by (simp add: anterior_valor previo_def)
    qed
  qed
  have "\<exists>bi'' bs''. bucle_i a a 0 n [Suc i0..<n] (nuevo', bi', bi', bs') = (bi'', bi'', bs'')
                    \<and> bi'' + bs'' \<le> n"
    using Suc.hyps(2) lt by (intro Suc.hyps(1) fila b d) auto
  then show ?case using lt r by (simp add: upt_conv_Cons)
qed

lemma extender_atras_refl: "extender_atras a a 0 0 (bi, bi, bs) = (0, 0, bs + bi)"
proof (induction bi arbitrary: bs)
  case 0
  show ?case by (subst extender_atras.simps) simp
next
  case (Suc bi)
  show ?case by (subst extender_atras.simps) (simp add: Suc.IH)
qed

lemma extender_adelante_refl:
  "m \<le> n \<Longrightarrow> extender_adelante a a n n (0, 0, m) = (0, 0, n)"
proof (induction "n - m" arbitrary: m)
  case 0
  then show ?case by (subst extender_adelante.simps) simp
next
  case (Suc d)
  from Suc.hyps(2) have lt: "m < n" by linarith
  with Suc have "extender_adelante a a n n (0, 0, Suc m) = (0, 0, n)" by simp
  with lt show ?case by (subst extender_adelante.simps) simp
qed

lemma find_longest_match_refl:
  "find_longest_match a a 0 (length a) 0 (length a) = (0, 0, length a)"
proof -
  have "\<exists>bi' bs'. bucle_i a a 0 (length a) [0..<length a] (Map.empty, 0, 0, 0) = (bi', bi', bs')
                   \<and> bi' + bs' \<le> length a"
    by (rule bucle_i_refl [OF refl]) (simp_all add: anterior_def previo_def)
  then obtain bi' bs' where
    "bucle_i a a 0 (length a) [0..<length a] (Map.empty, 0, 0, 0) = (bi', bi', bs')"
    and "bi' + bs' \<le> length a" by blast
  then show ?thesis
    by (simp add: find_longest_match_def extender_atras_refl extender_adelante_refl)
qed

lemma unir_adyacentes_uno: "0 < k \<Longrightarrow> unir_adyacentes [(0, 0, k)] = [(0, 0, k)]"
  by (simp add: unir_adyacentes_def)

lemma get_matching_blocks_refl:
  "get_matching_blocks a a =
     (if a = [] then [(0, 0, 0)] else [(0, 0, length a), (length a, length a, 0)])"
proof (cases "a = []")
  case True
  have "bucle_cola [] [] [(0, 0, 0, 0)] [] = []"
    using find_longest_match_refl [of "[]"] by (simp add: bucle_cola.simps)
  with True show ?thesis by (simp add: get_matching_blocks_def unir_adyacentes_def Let_def)
next
  case False
  have "bucle_cola a a [(0, length a, 0, length a)] [] = [(0, 0, length a)]"
    using find_longest_match_refl [of a] False by (simp add: bucle_cola.simps)
  with False show ?thesis by (simp add: get_matching_blocks_def unir_adyacentes_uno Let_def)
qed

lemma ratio_refl: "ratio a a = 1"
  by (simp add: ratio_def get_matching_blocks_refl calculate_ratio_def Let_def)

section \<open>Page loops\<close>

lemma foldl_snoc_concat:
  assumes "\<And>acc i. paso acc i = acc @ g i"
  shows "foldl paso acc xs = acc @ concat (map g xs)"
  by (induction xs arbitrary: acc) (simp_all add: assms)

lemma concat_map_filter: "concat (map (\<lambda>x. if P x then [f x] else []) xs) = map f (filter P xs)"
  by (induction xs) simp_all

lemma hojas_blanco_de_filter:
  "hojas_blanco_de v =
     map Suc (filter (\<lambda>i. case extraer_texto v i of
                             Texto t \<Rightarrow> length (strip t) < 10
                           | ErrorExtraccion e \<Rightarrow> False) [0..<total_folios v])"
proof -
  have "paso_hojas_blanco v acc i =
          acc @ (if (case extraer_texto v i of Texto t \<Rightarrow> length (strip t) < 10
                     | ErrorExtraccion e \<Rightarrow> False) then [Suc i] else [])" for acc i
    by (simp add: paso_hojas_blanco_def split: extraccion.splits)
  from foldl_snoc_concat [of "paso_hojas_blanco v", OF this] show ?thesis
    by (simp add: hojas_blanco_de_def concat_map_filter)
qed






section \<open>Properties of the pagination check\<close>

lemma paso_foliacion_snd:
  "snd (paso_foliacion v acc i) = snd acc @ inconsistencias_de_pagina v i"
  by (simp add: paso_foliacion_def inconsistencias_de_pagina_def Let_def
           split: extraccion.splits sum.splits)

lemma foldl_paso_foliacion:
  "snd (foldl (paso_foliacion v) acc xs) = snd acc @ concat (map (inconsistencias_de_pagina v) xs)"
proof (induction xs arbitrary: acc)
  case Nil
  show ?case by simp
next
  case (Cons i xs)
  have "snd (foldl (paso_foliacion v) (paso_foliacion v acc i) xs)
        = snd (paso_foliacion v acc i) @ concat (map (inconsistencias_de_pagina v) xs)"
    by (rule Cons.IH)
  then show ?case by (simp add: paso_foliacion_snd)
qed

lemma folios_incorrectos_de_concat:
  "folios_incorrectos_de v = concat (map (inconsistencias_de_pagina v) [0..<total_folios v])"
  by (simp add: folios_incorrectos_de_def foldl_paso_foliacion)

lemma folios_incorrectos_de_filter:
  "map pagina (folios_incorrectos_de v) =
     map Suc (filter (\<lambda>i. case extraer_texto v i of
                             Texto t \<Rightarrow>
                               (case primer_folio patrones t of
                                  Inl e \<Rightarrow> False
                                | Inr f \<Rightarrow> f \<noteq> Some (i + 1))
                           | ErrorExtraccion e \<Rightarrow> False) [0..<total_folios v])"
proof -
  have "map pagina (concat (map (inconsistencias_de_pagina v) xs)) =
        map Suc (filter (\<lambda>i. case extraer_texto v i of
                             Texto t \<Rightarrow>
                               (case primer_folio patrones t of
                                  Inl e \<Rightarrow> False
                                | Inr f \<Rightarrow> f \<noteq> Some (i + 1))
                           | ErrorExtraccion e \<Rightarrow> False) xs)" for xs
    by (induction xs)
       (auto simp: inconsistencias_de_pagina_def split: extraccion.splits sum.splits)
  then show ?thesis by (simp add: folios_incorrectos_de_concat)
qed

lemma folios_incorrectos_campos:
  assumes "x \<in> set (folios_incorrectos_de v)"
  shows "esperado x = pagina x \<and>
   (\<exists>t. extraer_texto v (pagina x - 1) = Texto t
         \<and> primer_folio patrones t = Inr (encontrado x))"
proof -
  from assms obtain i where "x \<in> set (inconsistencias_de_pagina v i)"
    by (auto simp: folios_incorrectos_de_concat)
  then show ?thesis
    by (cases "extraer_texto v i")
       (auto simp: inconsistencias_de_pagina_def split: if_splits sum.splits)
qed

lemma decimal_no_espacio: "isdecimal c \<Longrightarrow> \<not> isspace c \<and> c \<noteq> CHR '':''"
  by (auto simp: isdecimal_def isspace_def codigo_def Let_def)

lemma repetir_exito:
  assumes "\<not> k < kmin"
    and "casar p (if k = 0 then prev else Some (s ! (k - 1))) (drop k s)
           (if captura then take k s else g) = Some r"
  shows "repetir p prev s g captura k kmin = Some r"
  using assms by simp

lemma casar_grupo_digitos:
  assumes "ds \<noteq> []" and "\<forall>c\<in>set ds. isdecimal c"
  shows "casar [GrupoMas Digito] prev ds g = Some ds"
proof -
  have t: "takeWhile (en_clase Digito) ds = ds"
    using assms(2) by (simp add: en_clase_def takeWhile_eq_all_conv)
  have l: "\<not> length ds < 1" using assms(1) by (cases ds) auto
  have "casar [GrupoMas Digito] prev ds g = repetir [] prev ds g True (length ds) 1"
    by (simp only: casar.simps t)
  also have "\<dots> = Some ds"
    by (rule repetir_exito [OF l]) simp
  finally show ?thesis .
qed

lemma casar_espacios_digitos:
  assumes "ds \<noteq> []" and "\<forall>c\<in>set ds. isdecimal c"
  shows "casar [Estrella Espacio, GrupoMas Digito] prev ds g = Some ds"
proof -
  from assms obtain c cs where ds: "ds = c # cs" and c: "isdecimal c"
    by (cases ds) auto
  then have t: "takeWhile (en_clase Espacio) ds = []"
    using decimal_no_espacio [OF c] by (simp add: en_clase_def)
  have "casar [Estrella Espacio, GrupoMas Digito] prev ds g
        = repetir [GrupoMas Digito] prev ds g False 0 0"
    by (simp only: casar.simps t list.size)
  also have "\<dots> = Some ds"
  proof (rule repetir_exito)
    show "\<not> (0::nat) < 0" by simp
    show "casar [GrupoMas Digito] (if (0::nat) = 0 then prev else Some (ds ! (0 - 1)))
            (drop 0 ds) (if False then take 0 ds else g) = Some ds"
      by (simp only: if_True if_False drop_0 refl casar_grupo_digitos [OF assms])
  qed
  finally show ?thesis .
qed

lemma casar_cola_digitos:
  assumes "ds \<noteq> []" and "\<forall>c\<in>set ds. isdecimal c"
  shows "casar [Opcional CHR '':'', Estrella Espacio, GrupoMas Digito] prev ds g = Some ds"
proof -
  from assms obtain c cs where ds: "ds = c # cs" and c: "isdecimal c"
    by (cases ds) auto
  have "casar [Opcional CHR '':'', Estrella Espacio, GrupoMas Digito] prev (c # cs) g
        = casar [Estrella Espacio, GrupoMas Digito] prev (c # cs) g"
    using decimal_no_espacio [OF c] by (simp del: casar.simps(4,5))
  then show ?thesis using casar_espacios_digitos [OF assms, of prev g] by (simp only: ds)
qed

lemma casar_etiqueta_folio:
  assumes "ds \<noteq> []" and "\<forall>c\<in>set ds. isdecimal c"
  shows "casar (etiquetado ''folio'') None (''folio '' @ ds) [] = Some ds"
proof -
  from assms obtain c cs where ds: "ds = c # cs" and c: "isdecimal c"
    by (cases ds) auto
  have e: "isspace CHR '' ''" by (simp add: isspace_def codigo_def)
  have t: "takeWhile (en_clase Espacio) (CHR '' '' # ds) = [CHR '' '']"
    using decimal_no_espacio [OF c] e by (simp add: en_clase_def ds)
  let ?cola = "[Opcional CHR '':'', Estrella Espacio, GrupoMas Digito]"
  have "casar (Estrella Espacio # ?cola) (Some CHR ''o'') (CHR '' '' # ds) []
        = repetir ?cola (Some CHR ''o'') (CHR '' '' # ds) [] False (Suc 0) 0"
    by (simp only: casar.simps t list.size) simp
  also have "\<dots> = Some ds"
  proof (rule repetir_exito)
    show "\<not> Suc 0 < 0" by simp
    have "casar ?cola (Some CHR '' '') ds [] = Some ds"
      by (rule casar_cola_digitos [OF assms])
    then show "casar ?cola (if Suc 0 = 0 then Some CHR ''o''
                            else Some ((CHR '' '' # ds) ! (Suc 0 - 1)))
            (drop (Suc 0) (CHR '' '' # ds)) (if False then take (Suc 0) (CHR '' '' # ds) else [])
          = Some ds"
      by (simp del: casar.simps)
  qed
  finally have cola: "casar (Estrella Espacio # ?cola) (Some CHR ''o'') (CHR '' '' # ds) []
                      = Some ds" .
  have "casar (etiquetado ''folio'') None (''folio '' @ ds) []
        = casar (Estrella Espacio # ?cola) (Some CHR ''o'') (CHR '' '' # ds) []"
    by (simp add: etiquetado_def minuscula_def codigo_def del: casar.simps(3,4,5))
  with cola show ?thesis by simp
qed

lemma captura_desbordada:
  "re_search (etiquetado ''folio'') texto_desbordado = Some (replicate 4301 CHR ''1'')"
proof -
  have "casar (etiquetado ''folio'') None (''folio '' @ replicate 4301 CHR ''1'') []
        = Some (replicate 4301 CHR ''1'')"
    by (rule casar_etiqueta_folio) (simp_all add: isdecimal_def codigo_def)
  then show ?thesis
    by (simp add: re_search_def texto_desbordado_def del: casar.simps)
qed

lemma primer_folio_desbordado: "primer_folio patrones texto_desbordado = Inl ValueError"
  by (simp add: patrones_def captura_desbordada int_de_digitos_def int_max_str_digits_def)

text \<open>
  A page whose label is followed by 4301 digits: the first pattern matches and captures
  them, \<open>int\<close> raises, the handler of the page loop prints, and the page is not marked
  although the number it declares is not 1.
\<close>

theorem foliacion_desbordada:
  "re_search (etiquetado ''folio'') texto_desbordado = Some (replicate 4301 CHR ''1'')
   \<and> folios_incorrectos_de (cargado [Texto texto_desbordado]) = []
   \<and> verificar_foliacion (cargado [Texto texto_desbordado]) =
       Inr (agregar (cargado [Texto texto_desbordado])
         \<lparr>tipo_verificacion = ''1.2 Foliaci'' @ [CHR 0xF3] @ ''n Correlativa'',
          estado = ''APROBADO'', porcentaje_cumplimiento = 100, folios_afectados = []\<rparr>)"
proof -
  have f: "folios_incorrectos_de (cargado [Texto texto_desbordado]) = []"
    by (simp add: folios_incorrectos_de_def paso_foliacion_def cargado_def extraer_texto_def
          primer_folio_desbordado)
  have t: "total_folios (cargado [Texto texto_desbordado]) = 1"
    by (simp add: cargado_def)
  show ?thesis
    by (simp add: captura_desbordada f verificar_foliacion_def Let_def t)
qed

lemma umbral_diez: "real n \<le> real m * (1 / 10) \<longleftrightarrow> 10 * n \<le> m" for n m :: nat
proof -
  have "real n \<le> real m * (1 / 10) \<longleftrightarrow> real (10 * n) \<le> real m" by auto
  then show ?thesis by (simp only: of_nat_le_iff)
qed

text \<open>
  Claim C6, amended. The pagination check marks a page exactly when its text was
  extracted, the conversion of the digits captured by the first of the four patterns
  that matches (the three labelled ones before the bare number on a line of its own) did
  not raise, and the number read is absent or differs from the position of the page,
  counted from 1; a capture of more than 4300 digits makes \<open>int\<close> raise, and the page is
  skipped. Every entry records the position as the expected number and the number read
  as the one found. On a document with at least one page the state is \<open>APROBADO\<close>
  without marked pages, \<open>OBSERVADO\<close> when they are at most a tenth of the pages and
  \<open>RECHAZADO\<close> otherwise. For the two pages \<open>Folio: 1\<close> and \<open>Folio: 3\<close>, page 2 is marked
  (expected 2, found 3) and the state is \<open>RECHAZADO\<close>. The bare number has to fill its
  line: \<open>3 de marzo\<close> and \<open>hoja6\<close> declare no number, a line \<open>2\<close> between two other
  lines declares 2, and a label after a bare number still wins.
\<close>

theorem foliacion_correcta:
  "(\<forall>p. p \<in> set (map pagina (folios_incorrectos_de v)) \<longleftrightarrow>
         1 \<le> p \<and> p \<le> total_folios v
         \<and> (\<exists>t f. extraer_texto v (p - 1) = Texto t \<and> primer_folio patrones t = Inr f
                  \<and> f \<noteq> Some p))
   \<and> distinct (map pagina (folios_incorrectos_de v))
   \<and> (\<forall>x\<in>set (folios_incorrectos_de v).
         esperado x = pagina x
         \<and> (\<exists>t. extraer_texto v (pagina x - 1) = Texto t
                \<and> primer_folio patrones t = Inr (encontrado x)))
   \<and> (\<forall>t. primer_folio patrones t =
         (case (case re_search (etiquetado ''folio'') t of
                  Some g \<Rightarrow> Some g
                | None \<Rightarrow>
               (case re_search (etiquetado ''foja'') t of
                  Some g \<Rightarrow> Some g
                | None \<Rightarrow>
               (case re_search (etiquetado (''p'' @ [CHR 0xE1] @ ''gina'')) t of
                  Some g \<Rightarrow> Some g
                | None \<Rightarrow> re_search [Inicio, GrupoMas Digito, Fin] t))) of
            None \<Rightarrow> Inr None
          | Some g \<Rightarrow>
              if 4300 < length g then Inl ValueError
              else Inr (Some (foldl (\<lambda>n d. 10 * n + (codigo d - 48)) 0 g))))
   \<and> (0 < total_folios v \<longrightarrow>
        verificar_foliacion v =
          Inr (agregar v
            \<lparr>tipo_verificacion = ''1.2 Foliaci'' @ [CHR 0xF3] @ ''n Correlativa'',
             estado =
               (if length (folios_incorrectos_de v) = 0 then ''APROBADO''
                else if 10 * length (folios_incorrectos_de v) \<le> total_folios v
                     then ''OBSERVADO''
                else ''RECHAZADO''),
             porcentaje_cumplimiento =
               (real (total_folios v) - real (length (folios_incorrectos_de v)))
                 / real (total_folios v) * 100,
             folios_afectados = map pagina (folios_incorrectos_de v)\<rparr>))
   \<and> folios_incorrectos_de (cargado [Texto ''Folio: 1'', Texto ''Folio: 3''])
       = [\<lparr>pagina = 2, esperado = 2, encontrado = Some 3\<rparr>]
   \<and> (\<forall>v'. verificar_foliacion (cargado [Texto ''Folio: 1'', Texto ''Folio: 3'']) = Inr v'
         \<longrightarrow> estado (last (resultados v')) = ''RECHAZADO'')
   \<and> primer_folio patrones ''3 de marzo'' = Inr None
   \<and> primer_folio patrones ''hoja6'' = Inr None
   \<and> primer_folio patrones (''acta'' @ [salto] @ ''2'' @ [salto] @ ''fin'') = Inr (Some 2)
   \<and> primer_folio patrones (''12'' @ [salto] @ ''Foja 7'') = Inr (Some 7)"
proof -
  have mem: "p \<in> set (map pagina (folios_incorrectos_de v)) \<longleftrightarrow>
         1 \<le> p \<and> p \<le> total_folios v
         \<and> (\<exists>t f. extraer_texto v (p - 1) = Texto t \<and> primer_folio patrones t = Inr f
                  \<and> f \<noteq> Some p)" for p
  proof (cases p)
    case 0
    then show ?thesis by (auto simp: folios_incorrectos_de_filter)
  next
    case (Suc i)
    show ?thesis
    proof (cases "extraer_texto v i")
      case (Texto t)
      with Suc show ?thesis
        by (cases "primer_folio patrones t") (auto simp: folios_incorrectos_de_filter)
    next
      case (ErrorExtraccion e)
      with Suc show ?thesis by (auto simp: folios_incorrectos_de_filter)
    qed
  qed
  have dis: "distinct (map pagina (folios_incorrectos_de v))"
    unfolding folios_incorrectos_de_filter by (simp add: distinct_map)
  have campos: "\<forall>x\<in>set (folios_incorrectos_de v).
         esperado x = pagina x
         \<and> (\<exists>t. extraer_texto v (pagina x - 1) = Texto t
                \<and> primer_folio patrones t = Inr (encontrado x))"
    using folios_incorrectos_campos by blast
  have orden: "\<forall>t. primer_folio patrones t =
         (case (case re_search (etiquetado ''folio'') t of
                  Some g \<Rightarrow> Some g
                | None \<Rightarrow>
               (case re_search (etiquetado ''foja'') t of
                  Some g \<Rightarrow> Some g
                | None \<Rightarrow>
               (case re_search (etiquetado (''p'' @ [CHR 0xE1] @ ''gina'')) t of
                  Some g \<Rightarrow> Some g
                | None \<Rightarrow> re_search [Inicio, GrupoMas Digito, Fin] t))) of
            None \<Rightarrow> Inr None
          | Some g \<Rightarrow>
              if 4300 < length g then Inl ValueError
              else Inr (Some (foldl (\<lambda>n d. 10 * n + (codigo d - 48)) 0 g)))"
    by (simp add: patrones_def int_de_digitos_def int_max_str_digits_def
             split: option.splits)
  have res: "0 < total_folios v \<longrightarrow>
        verificar_foliacion v =
          Inr (agregar v
            \<lparr>tipo_verificacion = ''1.2 Foliaci'' @ [CHR 0xF3] @ ''n Correlativa'',
             estado =
               (if length (folios_incorrectos_de v) = 0 then ''APROBADO''
                else if 10 * length (folios_incorrectos_de v) \<le> total_folios v
                     then ''OBSERVADO''
                else ''RECHAZADO''),
             porcentaje_cumplimiento =
               (real (total_folios v) - real (length (folios_incorrectos_de v)))
                 / real (total_folios v) * 100,
             folios_afectados = map pagina (folios_incorrectos_de v)\<rparr>)"
    unfolding verificar_foliacion_def Let_def umbral_diez by simp
  have ej1: "folios_incorrectos_de (cargado [Texto ''Folio: 1'', Texto ''Folio: 3''])
       = [\<lparr>pagina = 2, esperado = 2, encontrado = Some 3\<rparr>]"
    by code_simp
  have t2: "total_folios (cargado [Texto ''Folio: 1'', Texto ''Folio: 3'']) = 2"
    by (simp add: cargado_def)
  have ej2: "\<forall>v'. verificar_foliacion (cargado [Texto ''Folio: 1'', Texto ''Folio: 3'']) = Inr v'
         \<longrightarrow> estado (last (resultados v')) = ''RECHAZADO''"
    unfolding verificar_foliacion_def Let_def ej1 t2 by (auto simp: agregar_def)
  have l1: "primer_folio patrones ''3 de marzo'' = Inr None"
    by code_simp
  have l2: "primer_folio patrones ''hoja6'' = Inr None"
    by code_simp
  have l3: "primer_folio patrones (''acta'' @ [salto] @ ''2'' @ [salto] @ ''fin'') = Inr (Some 2)"
    by code_simp
  have l4: "primer_folio patrones (''12'' @ [salto] @ ''Foja 7'') = Inr (Some 7)"
    by code_simp
  from mem dis campos orden res ej1 ej2 l1 l2 l3 l4 show ?thesis by blast
qed

lemma incorrectos_doc_foliado:
  "folios_incorrectos_de (cargado doc_foliado)
   = [\<lparr>pagina = 3, esperado = 3, encontrado = None\<rparr>,
      \<lparr>pagina = 6, esperado = 6, encontrado = None\<rparr>]"
  by code_simp

theorem foliacion_correcta_witness:
  "verificar_foliacion (cargado doc_foliado) =
     Inr (agregar (cargado doc_foliado)
       \<lparr>tipo_verificacion = ''1.2 Foliaci'' @ [CHR 0xF3] @ ''n Correlativa'',
        estado = ''OBSERVADO'', porcentaje_cumplimiento = 90, folios_afectados = [3, 6]\<rparr>)"
proof -
  have t: "total_folios (cargado doc_foliado) = 20"
    by (simp add: cargado_def doc_foliado_def)
  from foliacion_correcta [of "cargado doc_foliado"] show ?thesis
    by (simp add: t incorrectos_doc_foliado)
qed

section \<open>Properties of the legibility check\<close>

lemma paso_ilegibilidad_snoc:
  "paso_ilegibilidad v acc i = acc @ ilegibles_de_pagina v i"
  by (simp add: paso_ilegibilidad_def ilegibles_de_pagina_def split: extraccion.splits)

lemma folios_ilegibles_de_concat:
  "folios_ilegibles_de v = concat (map (ilegibles_de_pagina v) [0..<total_folios v])"
  unfolding folios_ilegibles_de_def
  using foldl_snoc_concat [of "paso_ilegibilidad v" "ilegibles_de_pagina v" "[]"]
  by (simp add: paso_ilegibilidad_snoc)

lemma folios_ilegibles_de_filter:
  "map folio (folios_ilegibles_de v) =
     map Suc (filter (\<lambda>i. case extraer_texto v i of
                             Texto t \<Rightarrow> t \<noteq> [] \<and> porcentaje_legible t < umbral_ilegibilidad (config v)
                           | ErrorExtraccion e \<Rightarrow> True) [0..<total_folios v])"
proof -
  have "map folio (concat (map (ilegibles_de_pagina v) xs)) =
        map Suc (filter (\<lambda>i. case extraer_texto v i of
                             Texto t \<Rightarrow> t \<noteq> [] \<and> porcentaje_legible t < umbral_ilegibilidad (config v)
                           | ErrorExtraccion e \<Rightarrow> True) xs)" for xs
    by (induction xs) (auto simp: ilegibles_de_pagina_def split: extraccion.splits)
  then show ?thesis by (simp add: folios_ilegibles_de_concat)
qed






section \<open>Properties of the duplicate check\<close>

lemma paso_duplicados_hash:
  "paso_duplicados md5 v (hashes, dups) n =
     (case hash_de md5 v n of
        None \<Rightarrow> (hashes, dups)
      | Some h \<Rightarrow>
          (case hashes h of
             Some original \<Rightarrow>
               (hashes, dups @ [\<lparr>folio_original = original, folio_duplicado = Suc n\<rparr>])
           | None \<Rightarrow> (hashes(h \<mapsto> Suc n), dups)))"
  by (simp add: paso_duplicados_def hash_de_def Let_def split: extraccion.splits option.splits)

lemma primeros_dom:
  assumes "primeros md5 v n hashes"
  shows "hashes x = None \<longleftrightarrow> (\<forall>i<n. hash_de md5 v i \<noteq> Some x)"
proof
  assume "hashes x = None"
  show "\<forall>i<n. hash_de md5 v i \<noteq> Some x"
  proof (intro allI impI notI)
    fix i assume "i < n" "hash_de md5 v i = Some x"
    define m where "m = (LEAST k. hash_de md5 v k = Some x)"
    have m1: "hash_de md5 v m = Some x"
      unfolding m_def by (rule LeastI [of _ i]) fact
    have m2: "m \<le> i" unfolding m_def by (rule Least_le) fact
    have m3: "\<forall>k<m. hash_de md5 v k \<noteq> Some x"
      unfolding m_def using not_less_Least by blast
    from m1 m2 m3 \<open>i < n\<close> assms have "hashes x = Some (Suc m)"
      unfolding primeros_def by auto
    with \<open>hashes x = None\<close> show False by simp
  qed
next
  assume "\<forall>i<n. hash_de md5 v i \<noteq> Some x"
  with assms show "hashes x = None"
    unfolding primeros_def by (cases "hashes x") auto
qed

lemma estado_duplicados:
  "primeros md5 v n (fst (foldl (paso_duplicados md5 v) (Map.empty, []) [0..<n]))
   \<and> map folio_duplicado (snd (foldl (paso_duplicados md5 v) (Map.empty, []) [0..<n]))
       = map Suc (filter (repetido md5 v) [0..<n])
   \<and> (\<forall>d\<in>set (snd (foldl (paso_duplicados md5 v) (Map.empty, []) [0..<n])).
         original_ok md5 v d)"
proof (induction n)
  case 0
  show ?case by (simp add: primeros_def)
next
  case (Suc n)
  obtain hashes dups where st: "foldl (paso_duplicados md5 v) (Map.empty, []) [0..<n] = (hashes, dups)"
    by (cases "foldl (paso_duplicados md5 v) (Map.empty, []) [0..<n]") auto
  from Suc st have pr: "primeros md5 v n hashes"
    and fl: "map folio_duplicado dups = map Suc (filter (repetido md5 v) [0..<n])"
    and ok: "\<forall>d\<in>set dups. original_ok md5 v d"
    by simp_all
  have paso: "foldl (paso_duplicados md5 v) (Map.empty, []) [0..<Suc n]
              = paso_duplicados md5 v (hashes, dups) n"
    by (simp add: st)
  show ?case
  proof (cases "hash_de md5 v n")
    case None
    then have r: "paso_duplicados md5 v (hashes, dups) n = (hashes, dups)"
      by (simp add: paso_duplicados_hash)
    have "primeros md5 v (Suc n) hashes"
      using pr None unfolding primeros_def by (auto simp: less_Suc_eq)
    moreover have "\<not> repetido md5 v n" using None by (simp add: repetido_def)
    ultimately show ?thesis using fl ok unfolding paso r fst_conv snd_conv by simp
  next
    case (Some h)
    show ?thesis
    proof (cases "hashes h")
      case None
      with Some have r: "paso_duplicados md5 v (hashes, dups) n = (hashes(h \<mapsto> Suc n), dups)"
        by (simp add: paso_duplicados_hash)
      from None primeros_dom [OF pr] have nuevo: "\<forall>i<n. hash_de md5 v i \<noteq> Some h" by simp
      have "primeros md5 v (Suc n) (hashes(h \<mapsto> Suc n))"
        unfolding primeros_def
      proof (intro allI)
        fix x p
        show "(hashes(h \<mapsto> Suc n)) x = Some p \<longleftrightarrow>
              (\<exists>i<Suc n. p = Suc i \<and> hash_de md5 v i = Some x \<and> (\<forall>k<i. hash_de md5 v k \<noteq> Some x))"
        proof (cases "x = h")
          case True
          with nuevo Some show ?thesis by (auto simp: less_Suc_eq)
        next
          case False
          with pr Some show ?thesis unfolding primeros_def by (auto simp: less_Suc_eq)
        qed
      qed
      moreover have "\<not> repetido md5 v n" using nuevo Some by (auto simp: repetido_def)
      ultimately show ?thesis using fl ok unfolding paso r fst_conv snd_conv
        by (simp add: fun_upd_def)
    next
      case (Some original)
      with \<open>hash_de md5 v n = Some h\<close>
      have r: "paso_duplicados md5 v (hashes, dups) n
               = (hashes, dups @ [\<lparr>folio_original = original, folio_duplicado = Suc n\<rparr>])"
        by (simp add: paso_duplicados_hash)
      from Some pr obtain i where i: "i < n" "original = Suc i" "hash_de md5 v i = Some h"
        "\<forall>k<i. hash_de md5 v k \<noteq> Some h"
        unfolding primeros_def by blast
      have p1: "primeros md5 v (Suc n) hashes"
        unfolding primeros_def
      proof (intro allI)
        fix x p
        show "hashes x = Some p \<longleftrightarrow>
              (\<exists>k<Suc n. p = Suc k \<and> hash_de md5 v k = Some x \<and> (\<forall>l<k. hash_de md5 v l \<noteq> Some x))"
          using pr i \<open>hash_de md5 v n = Some h\<close> unfolding primeros_def
          by (auto simp: less_Suc_eq)
      qed
      have p2: "repetido md5 v n"
        using i \<open>hash_de md5 v n = Some h\<close> by (auto simp: repetido_def)
      have p3: "original_ok md5 v \<lparr>folio_original = original, folio_duplicado = Suc n\<rparr>"
        using i \<open>hash_de md5 v n = Some h\<close> by (auto simp: original_ok_def)
      from p1 p2 p3 fl ok show ?thesis unfolding paso r fst_conv snd_conv by simp
    qed
  qed
qed

lemma duplicados_de_filter:
  "map folio_duplicado (duplicados_de md5 v) = map Suc (filter (repetido md5 v) [0..<total_folios v])"
  using estado_duplicados [of md5 v "total_folios v"] by (simp add: duplicados_de_def)

lemma repetido_iff:
  "repetido md5 v j \<longleftrightarrow>
     (\<exists>t. extraer_texto v j = Texto t
           \<and> (\<exists>k<j. \<exists>t'. extraer_texto v k = Texto t' \<and> md5 t' = md5 t))"
proof -
  have h: "hash_de md5 v k = Some x \<longleftrightarrow> (\<exists>t'. extraer_texto v k = Texto t' \<and> md5 t' = x)"
    for k x by (cases "extraer_texto v k") (auto simp: hash_de_def)
  show ?thesis
  proof (cases "extraer_texto v j")
    case (Texto t)
    then have hj: "hash_de md5 v j = Some (md5 t)" by (simp add: hash_de_def)
    have "repetido md5 v j \<longleftrightarrow> (\<exists>k<j. hash_de md5 v k = Some (md5 t))"
      unfolding repetido_def hj by simp
    also have "\<dots> \<longleftrightarrow> (\<exists>k<j. \<exists>t'. extraer_texto v k = Texto t' \<and> md5 t' = md5 t)"
      unfolding h ..
    finally show ?thesis using Texto by simp
  next
    case (ErrorExtraccion e)
    then show ?thesis by (simp add: repetido_def hash_de_def)
  qed
qed

lemma flagged_iff:
  "Suc i \<in> set (map folio_duplicado (duplicados_de md5 v)) \<longleftrightarrow>
     i < total_folios v \<and> repetido md5 v i"
  unfolding duplicados_de_filter by auto

text \<open>
  Three pages with the same text: pages 2 and 3 are identical and page 2, the earlier of
  the two, is flagged, because page 1 has that text as well.
\<close>

theorem duplicados_anterior_contraejemplo:
  "extraer_texto (cargado doc_copias) 1 = extraer_texto (cargado doc_copias) 2
   \<and> 2 \<in> set (map folio_duplicado (duplicados_de id (cargado doc_copias)))
   \<and> 3 \<in> set (map folio_duplicado (duplicados_de id (cargado doc_copias)))"
  by code_simp

text \<open>
  Claim C5, amended. The duplicate check flags a page exactly when its text was
  extracted and its hash is the hash of an earlier page; no page is flagged twice; every
  entry names as original an earlier page with the same hash that is not itself flagged
  (the first page with that hash). On a document with at least one page the state is
  \<open>APROBADO\<close> without duplicates and \<open>RECHAZADO\<close> otherwise, and the affected pages are
  the flagged ones. In every document, of two pages with identical text the later one is
  flagged, and the earlier one is flagged exactly when a page before it has the same
  hash.
\<close>

theorem duplicados_correcto:
  "(\<forall>i. Suc i \<in> set (map folio_duplicado (duplicados_de md5 v)) \<longleftrightarrow>
         i < total_folios v
         \<and> (\<exists>t. extraer_texto v i = Texto t
                \<and> (\<exists>k<i. \<exists>t'. extraer_texto v k = Texto t' \<and> md5 t' = md5 t)))
   \<and> 0 \<notin> set (map folio_duplicado (duplicados_de md5 v))
   \<and> distinct (map folio_duplicado (duplicados_de md5 v))
   \<and> (\<forall>d\<in>set (duplicados_de md5 v).
         \<exists>i j t t'. folio_original d = Suc i \<and> folio_duplicado d = Suc j \<and> i < j
            \<and> extraer_texto v i = Texto t' \<and> extraer_texto v j = Texto t \<and> md5 t' = md5 t
            \<and> folio_original d \<notin> set (map folio_duplicado (duplicados_de md5 v)))
   \<and> (0 < total_folios v \<longrightarrow>
        verificar_folios_duplicados md5 v =
          Inr (agregar v
            \<lparr>tipo_verificacion = ''1.2 Folios Duplicados'',
             estado = (if duplicados_de md5 v = [] then ''APROBADO'' else ''RECHAZADO''),
             porcentaje_cumplimiento =
               (real (total_folios v) - real (length (duplicados_de md5 v)))
                 / real (total_folios v) * 100,
             folios_afectados = map folio_duplicado (duplicados_de md5 v)\<rparr>))
   \<and> (\<forall>i j t. i < j \<and> j < total_folios v
         \<and> extraer_texto v i = Texto t \<and> extraer_texto v j = Texto t
         \<longrightarrow> Suc j \<in> set (map folio_duplicado (duplicados_de md5 v))
             \<and> (Suc i \<in> set (map folio_duplicado (duplicados_de md5 v)) \<longleftrightarrow>
                  (\<exists>k<i. \<exists>t'. extraer_texto v k = Texto t' \<and> md5 t' = md5 t)))"
proof -
  let ?F = "set (map folio_duplicado (duplicados_de md5 v))"
  have mem: "\<forall>i. Suc i \<in> ?F \<longleftrightarrow>
         i < total_folios v
         \<and> (\<exists>t. extraer_texto v i = Texto t
                \<and> (\<exists>k<i. \<exists>t'. extraer_texto v k = Texto t' \<and> md5 t' = md5 t))"
    unfolding flagged_iff repetido_iff by simp
  have cero: "0 \<notin> ?F"
    unfolding duplicados_de_filter by auto
  have dis: "distinct (map folio_duplicado (duplicados_de md5 v))"
    unfolding duplicados_de_filter by (simp add: distinct_map)
  have orig: "\<forall>d\<in>set (duplicados_de md5 v).
         \<exists>i j t t'. folio_original d = Suc i \<and> folio_duplicado d = Suc j \<and> i < j
            \<and> extraer_texto v i = Texto t' \<and> extraer_texto v j = Texto t \<and> md5 t' = md5 t
            \<and> folio_original d \<notin> ?F"
  proof
    fix d assume "d \<in> set (duplicados_de md5 v)"
    with estado_duplicados [of md5 v "total_folios v"] have "original_ok md5 v d"
      by (simp add: duplicados_de_def)
    then obtain i j where ij: "folio_original d = Suc i" "folio_duplicado d = Suc j" "i < j"
      "hash_de md5 v j \<noteq> None" "hash_de md5 v i = hash_de md5 v j"
      "\<forall>k<i. hash_de md5 v k \<noteq> hash_de md5 v j"
      unfolding original_ok_def by blast
    from ij(4,5) obtain t t' where t: "extraer_texto v j = Texto t" "extraer_texto v i = Texto t'"
      "md5 t' = md5 t"
      by (cases "extraer_texto v j"; cases "extraer_texto v i") (auto simp: hash_de_def)
    have "\<not> repetido md5 v i"
      using ij(5,6) unfolding repetido_def by auto
    then have "Suc i \<notin> ?F" unfolding flagged_iff by simp
    with ij t show "\<exists>i j t t'. folio_original d = Suc i \<and> folio_duplicado d = Suc j \<and> i < j
            \<and> extraer_texto v i = Texto t' \<and> extraer_texto v j = Texto t \<and> md5 t' = md5 t
            \<and> folio_original d \<notin> ?F"
      by auto
  qed
  have res: "0 < total_folios v \<longrightarrow>
        verificar_folios_duplicados md5 v =
          Inr (agregar v
            \<lparr>tipo_verificacion = ''1.2 Folios Duplicados'',
             estado = (if duplicados_de md5 v = [] then ''APROBADO'' else ''RECHAZADO''),
             porcentaje_cumplimiento =
               (real (total_folios v) - real (length (duplicados_de md5 v)))
                 / real (total_folios v) * 100,
             folios_afectados = map folio_duplicado (duplicados_de md5 v)\<rparr>)"
    by (simp add: verificar_folios_duplicados_def Let_def)
  have par: "\<forall>i j t. i < j \<and> j < total_folios v
         \<and> extraer_texto v i = Texto t \<and> extraer_texto v j = Texto t
         \<longrightarrow> Suc j \<in> ?F
             \<and> (Suc i \<in> ?F \<longleftrightarrow>
                  (\<exists>k<i. \<exists>t'. extraer_texto v k = Texto t' \<and> md5 t' = md5 t))"
    unfolding flagged_iff repetido_iff by auto
  from mem cero dis orig res par show ?thesis by blast
qed

lemma duplicados_doc_escenario:
  "duplicados_de id (cargado doc_escenario) = [\<lparr>folio_original = 1, folio_duplicado = 3\<rparr>]"
  by code_simp

theorem duplicados_correcto_witness:
  "verificar_folios_duplicados id (cargado doc_escenario) =
     Inr (agregar (cargado doc_escenario)
       \<lparr>tipo_verificacion = ''1.2 Folios Duplicados'', estado = ''RECHAZADO'',
        porcentaje_cumplimiento = 200 / 3, folios_afectados = [3]\<rparr>)"
proof -
  have t: "total_folios (cargado doc_escenario) = 3"
    by (simp add: cargado_def doc_escenario_def)
  from duplicados_correcto [of id "cargado doc_escenario"] show ?thesis
    by (simp add: t duplicados_doc_escenario)
qed

section \<open>Properties of the similarity function\<close>

text \<open>
  The ratio depends on the order of its arguments: the greedy search for the longest
  block takes the first block of \<open>a\<close> and so cuts \<open>tide\<close> against \<open>diet\<close> in another
  place than \<open>diet\<close> against \<open>tide\<close>.
\<close>

theorem similitud_no_simetrica:
  "calcular_similitud ''tide'' ''diet'' = 1 / 4 \<and> calcular_similitud ''diet'' ''tide'' = 1 / 2"
  by code_simp

text \<open>
  Claim C3, amended. The similarity of two texts is not symmetric in general; for every
  text, the similarity of the text with an exact copy of itself is exactly 1.
\<close>

theorem similitud_reflexiva: "calcular_similitud t t = 1"
  by (simp add: calcular_similitud_def ratio_refl)

section \<open>Documents without pages\<close>

lemma cargar_documento_vacio:
  "pdf_reader (ruta_documento v) = Some [] \<Longrightarrow>
   cargar_documento pdf_reader v = (True, v\<lparr>documento_pdf := Some [], total_folios := 0\<rparr>)"
  by (simp add: cargar_documento_def)

lemma hojas_blanco_retorna:
  "0 < total_folios v \<Longrightarrow> \<exists>r. verificar_hojas_blanco v = Inr (agregar v r)"
  unfolding verificar_hojas_blanco_def Let_def by (simp; blast)

lemma foliacion_retorna:
  "0 < total_folios v \<Longrightarrow> \<exists>r. verificar_foliacion v = Inr (agregar v r)"
  unfolding verificar_foliacion_def Let_def by (simp; blast)

lemma folios_duplicados_retorna:
  "0 < total_folios v \<Longrightarrow> \<exists>r. verificar_folios_duplicados md5 v = Inr (agregar v r)"
  unfolding verificar_folios_duplicados_def Let_def by (simp; blast)

lemma ilegibilidad_retorna:
  "0 < total_folios v \<Longrightarrow> \<exists>r. verificar_ilegibilidad v = Inr (agregar v r)"
  unfolding verificar_ilegibilidad_def Let_def by (simp; blast)

lemma plagio_retorna: "\<exists>r. verificar_plagio v = Inr (agregar v r)"
  unfolding verificar_plagio_def Let_def by blast

lemma ortografia_retorna: "\<exists>r. verificar_ortografia language_tool v = Inr (agregar v r)"
  unfolding verificar_ortografia_def by blast

text \<open>
  Claim C10. The blank-page, pagination, duplicate and legibility checks divide by the
  number of pages without a guard: on a verifier without pages each of them raises
  \<open>ZeroDivisionError\<close> instead of returning a result, and each returns a result as soon
  as there is a page. A document that loads with an empty list of pages is such a
  verifier.
\<close>

theorem division_por_cero:
  "(total_folios v = 0 \<longrightarrow>
      verificar_hojas_blanco v = Inl ZeroDivisionError
      \<and> verificar_foliacion v = Inl ZeroDivisionError
      \<and> verificar_folios_duplicados md5 v = Inl ZeroDivisionError
      \<and> verificar_ilegibilidad v = Inl ZeroDivisionError)
   \<and> (0 < total_folios v \<longrightarrow>
      (\<exists>r. verificar_hojas_blanco v = Inr (agregar v r))
      \<and> (\<exists>r. verificar_foliacion v = Inr (agregar v r))
      \<and> (\<exists>r. verificar_folios_duplicados md5 v = Inr (agregar v r))
      \<and> (\<exists>r. verificar_ilegibilidad v = Inr (agregar v r)))
   \<and> (pdf_reader (ruta_documento v) = Some [] \<longrightarrow>
      fst (cargar_documento pdf_reader v)
      \<and> total_folios (snd (cargar_documento pdf_reader v)) = 0)"
proof -
  have cero: "total_folios v = 0 \<longrightarrow>
      verificar_hojas_blanco v = Inl ZeroDivisionError
      \<and> verificar_foliacion v = Inl ZeroDivisionError
      \<and> verificar_folios_duplicados md5 v = Inl ZeroDivisionError
      \<and> verificar_ilegibilidad v = Inl ZeroDivisionError"
    by (simp add: verificar_hojas_blanco_def verificar_foliacion_def
          verificar_folios_duplicados_def verificar_ilegibilidad_def Let_def)
  have pos: "0 < total_folios v \<longrightarrow>
      (\<exists>r. verificar_hojas_blanco v = Inr (agregar v r))
      \<and> (\<exists>r. verificar_foliacion v = Inr (agregar v r))
      \<and> (\<exists>r. verificar_folios_duplicados md5 v = Inr (agregar v r))
      \<and> (\<exists>r. verificar_ilegibilidad v = Inr (agregar v r))"
    using hojas_blanco_retorna foliacion_retorna folios_duplicados_retorna
      ilegibilidad_retorna by blast
  have carga: "pdf_reader (ruta_documento v) = Some [] \<longrightarrow>
      fst (cargar_documento pdf_reader v)
      \<and> total_folios (snd (cargar_documento pdf_reader v)) = 0"
    by (simp add: cargar_documento_def)
  from cero pos carga show ?thesis by blast
qed

theorem division_por_cero_witness:
  "verificar_hojas_blanco (snd (cargar_documento lector_vacio (init_verificador ''vacio.pdf'' None)))
     = Inl ZeroDivisionError
   \<and> (\<exists>r. verificar_hojas_blanco (cargado [Texto ''una hoja'']) = Inr (agregar (cargado [Texto ''una hoja'']) r))"
proof -
  have a: "total_folios (snd (cargar_documento lector_vacio (init_verificador ''vacio.pdf'' None))) = 0"
    by (simp add: cargar_documento_def lector_vacio_def)
  have b: "0 < total_folios (cargado [Texto ''una hoja''])"
    by (simp add: cargado_def)
  from division_por_cero
         [of "snd (cargar_documento lector_vacio (init_verificador ''vacio.pdf'' None))" id lector_vacio]
       division_por_cero [of "cargado [Texto ''una hoja'']" id lector_vacio] a b
  show ?thesis by blast
qed

text \<open>
  Claim C4 fails on a document that loads with no pages: the division by zero of the
  first check is outside every \<open>try\<close>, leaves \<open>ejecutar_verificacion_completa\<close> and no
  further check runs and no report is returned.
\<close>

theorem pipeline_aborta_sin_folios:
  "pdf_reader (ruta_documento v) = Some [] \<Longrightarrow>
   ejecutar_verificacion_completa pdf_reader md5 language_tool v = Inl ZeroDivisionError"
  by (simp add: ejecutar_verificacion_completa_def cargar_documento_def luego_def
        verificar_hojas_blanco_def Let_def)

theorem pipeline_aborta_sin_folios_witness:
  "ejecutar_verificacion_completa lector_vacio id sin_herramienta
     (init_verificador ''vacio.pdf'' None) = Inl ZeroDivisionError"
  by (rule pipeline_aborta_sin_folios) (simp add: lector_vacio_def)

section \<open>Range of the percentages\<close>

lemma strip_texto_largo: "strip texto_largo = texto_largo"
  by (simp add: strip_def texto_largo_def isspace_def codigo_def)

lemma length_texto_largo: "length texto_largo = 101"
  by (simp add: texto_largo_def)

lemma round2_cien: "round2 100 = 100"
  by (simp add: round2_def)

lemma secciones_doc_cuatro:
  "secciones_texto_de (cargado doc_cuatro) =
     [\<lparr>folio_seccion = 1, texto = texto_largo\<rparr>, \<lparr>folio_seccion = 2, texto = texto_largo\<rparr>,
      \<lparr>folio_seccion = 3, texto = texto_largo\<rparr>, \<lparr>folio_seccion = 4, texto = texto_largo\<rparr>]"
  by (simp add: secciones_texto_de_def cargado_def doc_cuatro_def paso_secciones_def
        extraer_texto_def strip_texto_largo length_texto_largo)

lemma casos_doc_cuatro:
  "casos_plagio_de (cargado doc_cuatro) (secciones_texto_de (cargado doc_cuatro)) =
     [\<lparr>folio_1 = 1, folio_2 = 2, similitud = 100\<rparr>, \<lparr>folio_1 = 1, folio_2 = 3, similitud = 100\<rparr>,
      \<lparr>folio_1 = 1, folio_2 = 4, similitud = 100\<rparr>, \<lparr>folio_1 = 2, folio_2 = 3, similitud = 100\<rparr>,
      \<lparr>folio_1 = 2, folio_2 = 4, similitud = 100\<rparr>, \<lparr>folio_1 = 3, folio_2 = 4, similitud = 100\<rparr>]"
proof -
  have u: "umbral_plagio (config (cargado doc_cuatro)) = 85 / 100"
    by (simp add: cargado_def init_verificador_def config_default_def)
  show ?thesis
    unfolding secciones_doc_cuatro
    by (simp add: casos_plagio_de_def paso_casos_def calcular_similitud_def ratio_refl
          round2_cien u)
qed

text \<open>
  Claim C2 fails in the similarity check. Four pages with the same text of 101
  characters are four eligible pages and six similar pairs, and the check returns the
  percentage \<open>100 - 6 / 4 * 100 = -50\<close>, below the interval from 0 to 100 that every
  other check keeps (the spelling check by an explicit \<open>max(0, ...)\<close>): the number of
  pairs is divided by the number of pages.
\<close>

theorem plagio_porcentaje_negativo:
  "verificar_plagio (cargado doc_cuatro) =
     Inr (agregar (cargado doc_cuatro)
       \<lparr>tipo_verificacion = ''1.3 Verificaci'' @ [CHR 0xF3] @ ''n de Plagio'',
        estado = ''OBSERVADO'', porcentaje_cumplimiento = - 50,
        folios_afectados = [1, 2, 3, 4]\<rparr>)"
  unfolding verificar_plagio_def Let_def casos_doc_cuatro
  by (simp add: secciones_doc_cuatro)

lemma length_filter_upt: "length (map f (filter P [0..<n])) \<le> n"
  using length_filter_le [of P "[0..<n]"] by simp

lemma length_hojas_blanco: "length (hojas_blanco_de v) \<le> total_folios v"
  unfolding hojas_blanco_de_filter by (rule length_filter_upt)

lemma length_folios_incorrectos: "length (folios_incorrectos_de v) \<le> total_folios v"
  using length_filter_upt [of Suc _ "total_folios v"]
    arg_cong [OF folios_incorrectos_de_filter [of v], of length]
  by simp

lemma length_duplicados: "length (duplicados_de md5 v) \<le> total_folios v"
  using length_filter_upt [of Suc _ "total_folios v"]
    arg_cong [OF duplicados_de_filter [of md5 v], of length]
  by simp

lemma length_folios_ilegibles: "length (folios_ilegibles_de v) \<le> total_folios v"
  using length_filter_upt [of Suc _ "total_folios v"]
    arg_cong [OF folios_ilegibles_de_filter [of v], of length]
  by simp

lemma porcentaje_acotado:
  assumes "n \<le> t" and "0 < t"
  shows "0 \<le> (real t - real n) / real t * 100 \<and> (real t - real n) / real t * 100 \<le> 100"
proof -
  from assms have a: "0 \<le> real t - real n" and b: "real t - real n \<le> real t" and c: "0 < real t"
    by simp_all
  define x where "x = (real t - real n) / real t"
  from a c have "0 \<le> x" by (simp add: x_def)
  moreover from b c have "x \<le> 1"
    by (simp add: x_def divide_le_eq_1)
  ultimately have "0 \<le> x * 100 \<and> x * 100 \<le> 100" by linarith
  then show ?thesis unfolding x_def .
qed

lemma existe_resultado:
  "0 \<le> porcentaje_cumplimiento r \<and> porcentaje_cumplimiento r \<le> 100 \<Longrightarrow>
   \<exists>r'. (Inr (agregar v r) :: error + verificador) = Inr (agregar v r')
        \<and> 0 \<le> porcentaje_cumplimiento r' \<and> porcentaje_cumplimiento r' \<le> 100"
  by blast

lemma hojas_blanco_acotado:
  assumes "0 < total_folios v"
  shows "\<exists>r. verificar_hojas_blanco v = Inr (agregar v r)
             \<and> 0 \<le> porcentaje_cumplimiento r \<and> porcentaje_cumplimiento r \<le> 100"
  unfolding verificar_hojas_blanco_def Let_def
  using assms porcentaje_acotado [OF length_hojas_blanco assms]
  by (simp only: if_False less_not_refl3 [THEN not_sym] neq0_conv [symmetric]) (rule existe_resultado, simp)

lemma foliacion_acotado:
  assumes "0 < total_folios v"
  shows "\<exists>r. verificar_foliacion v = Inr (agregar v r)
             \<and> 0 \<le> porcentaje_cumplimiento r \<and> porcentaje_cumplimiento r \<le> 100"
  unfolding verificar_foliacion_def Let_def
  using assms porcentaje_acotado [OF length_folios_incorrectos assms]
  by (simp only: if_False less_not_refl3 [THEN not_sym] neq0_conv [symmetric]) (rule existe_resultado, simp)

lemma folios_duplicados_acotado:
  assumes "0 < total_folios v"
  shows "\<exists>r. verificar_folios_duplicados md5 v = Inr (agregar v r)
             \<and> 0 \<le> porcentaje_cumplimiento r \<and> porcentaje_cumplimiento r \<le> 100"
  unfolding verificar_folios_duplicados_def Let_def
  using assms porcentaje_acotado [OF length_duplicados [of md5 v] assms]
  by (simp only: if_False less_not_refl3 [THEN not_sym] neq0_conv [symmetric]) (rule existe_resultado, simp)

lemma ilegibilidad_acotado:
  assumes "0 < total_folios v"
  shows "\<exists>r. verificar_ilegibilidad v = Inr (agregar v r)
             \<and> 0 \<le> porcentaje_cumplimiento r \<and> porcentaje_cumplimiento r \<le> 100"
  unfolding verificar_ilegibilidad_def Let_def
  using assms porcentaje_acotado [OF length_folios_ilegibles assms]
  by (simp only: if_False less_not_refl3 [THEN not_sym] neq0_conv [symmetric]) (rule existe_resultado, simp)

lemma cuerpo_ortografia_acotado:
  "cuerpo_ortografia language_tool v = Some r \<Longrightarrow>
   0 \<le> porcentaje_cumplimiento r \<and> porcentaje_cumplimiento r \<le> 100"
  unfolding cuerpo_ortografia_def Let_def
  by (auto split: option.splits if_splits)

lemma ortografia_acotado:
  "\<exists>r. verificar_ortografia language_tool v = Inr (agregar v r)
       \<and> 0 \<le> porcentaje_cumplimiento r \<and> porcentaje_cumplimiento r \<le> 100"
proof (cases "cuerpo_ortografia language_tool v")
  case None
  show ?thesis unfolding verificar_ortografia_def None
    by (rule existe_resultado) simp
next
  case (Some r)
  show ?thesis unfolding verificar_ortografia_def Some
    by (rule existe_resultado) (use cuerpo_ortografia_acotado [OF Some] in simp)
qed

lemma plagio_porcentaje:
  "\<exists>r. verificar_plagio v = Inr (agregar v r)
       \<and> porcentaje_cumplimiento r =
           100 - real (length (casos_plagio_de v (secciones_texto_de v)))
                 / real (max (length (secciones_texto_de v)) 1) * 100
       \<and> porcentaje_cumplimiento r \<le> 100
       \<and> (0 \<le> porcentaje_cumplimiento r \<longleftrightarrow>
            length (casos_plagio_de v (secciones_texto_de v))
              \<le> max (length (secciones_texto_de v)) 1)"
proof -
  define c where "c = length (casos_plagio_de v (secciones_texto_de v))"
  define m where "m = max (length (secciones_texto_de v)) 1"
  have m: "0 < real m" by (simp add: m_def)
  define x where "x = real c / real m"
  have x0: "0 \<le> x" using m by (simp add: x_def)
  have x1: "x \<le> 1 \<longleftrightarrow> c \<le> m" using m by (simp add: x_def divide_le_eq_1)
  have "100 - x * 100 \<le> 100" using x0 by linarith
  then have le: "100 - real c / real m * 100 \<le> 100" unfolding x_def .
  have "0 \<le> 100 - x * 100 \<longleftrightarrow> x \<le> 1" by auto
  then have pos: "0 \<le> 100 - real c / real m * 100 \<longleftrightarrow> c \<le> m"
    unfolding x1 unfolding x_def .
  show ?thesis
    unfolding verificar_plagio_def Let_def c_def [symmetric] m_def [symmetric]
    using le pos by (intro exI [of _ "\<lparr>tipo_verificacion = _, estado = _,
            porcentaje_cumplimiento = 100 - real c / real m * 100, folios_afectados = _\<rparr>"])
       simp
qed

text \<open>
  The other checks keep the interval: on a document with at least one page the
  percentage of the blank-page, pagination, duplicate and legibility checks lies between
  0 and 100, and so does the percentage of the spelling check on every document. The
  percentage of the similarity check is \<open>100 - cases / max(eligible, 1) * 100\<close>: it is
  at most 100, and it is at least 0 exactly when there are no more similar pairs than
  eligible pages.
\<close>

theorem porcentajes_acotados:
  "(0 < total_folios v \<longrightarrow>
      (\<exists>r. verificar_hojas_blanco v = Inr (agregar v r)
            \<and> 0 \<le> porcentaje_cumplimiento r \<and> porcentaje_cumplimiento r \<le> 100)
      \<and> (\<exists>r. verificar_foliacion v = Inr (agregar v r)
            \<and> 0 \<le> porcentaje_cumplimiento r \<and> porcentaje_cumplimiento r \<le> 100)
      \<and> (\<exists>r. verificar_folios_duplicados md5 v = Inr (agregar v r)
            \<and> 0 \<le> porcentaje_cumplimiento r \<and> porcentaje_cumplimiento r \<le> 100)
      \<and> (\<exists>r. verificar_ilegibilidad v = Inr (agregar v r)
            \<and> 0 \<le> porcentaje_cumplimiento r \<and> porcentaje_cumplimiento r \<le> 100))
   \<and> (\<exists>r. verificar_ortografia language_tool v = Inr (agregar v r)
            \<and> 0 \<le> porcentaje_cumplimiento r \<and> porcentaje_cumplimiento r \<le> 100)
   \<and> (\<exists>r. verificar_plagio v = Inr (agregar v r)
         \<and> porcentaje_cumplimiento r =
             100 - real (length (casos_plagio_de v (secciones_texto_de v)))
                   / real (max (length (secciones_texto_de v)) 1) * 100
         \<and> porcentaje_cumplimiento r \<le> 100
         \<and> (0 \<le> porcentaje_cumplimiento r \<longleftrightarrow>
              length (casos_plagio_de v (secciones_texto_de v))
                \<le> max (length (secciones_texto_de v)) 1))"
  using hojas_blanco_acotado [of v] foliacion_acotado [of v]
    folios_duplicados_acotado [of v md5] ilegibilidad_acotado [of v]
    ortografia_acotado [of language_tool v] plagio_porcentaje [of v]
  by blast

theorem porcentajes_acotados_witness:
  "(\<exists>r. verificar_hojas_blanco (cargado doc_escenario) = Inr (agregar (cargado doc_escenario) r)
            \<and> 0 \<le> porcentaje_cumplimiento r \<and> porcentaje_cumplimiento r \<le> 100)
   \<and> (\<exists>r. verificar_folios_duplicados id (cargado doc_escenario)
              = Inr (agregar (cargado doc_escenario) r)
            \<and> 0 \<le> porcentaje_cumplimiento r \<and> porcentaje_cumplimiento r \<le> 100)"
proof -
  have "0 < total_folios (cargado doc_escenario)"
    by (simp add: cargado_def doc_escenario_def)
  with porcentajes_acotados [of "cargado doc_escenario" id sin_herramienta]
  show ?thesis by blast
qed

section \<open>Pages whose extraction fails\<close>

lemma paso_secciones_snoc: "paso_secciones v acc i = acc @ secciones_de_pagina v i"
  by (simp add: paso_secciones_def secciones_de_pagina_def split: extraccion.splits)

lemma secciones_texto_de_concat:
  "secciones_texto_de v = concat (map (secciones_de_pagina v) [0..<total_folios v])"
  unfolding secciones_texto_de_def
  using foldl_snoc_concat [of "paso_secciones v" "secciones_de_pagina v" "[]"]
  by (simp add: paso_secciones_snoc)

lemma seccion_con_texto:
  assumes "s \<in> set (secciones_texto_de v)"
  shows "\<exists>i t. folio_seccion s = Suc i \<and> extraer_texto v i = Texto t"
proof -
  from assms obtain i where "s \<in> set (secciones_de_pagina v i)"
    by (auto simp: secciones_texto_de_concat)
  then show ?thesis
    by (cases "extraer_texto v i") (auto simp: secciones_de_pagina_def split: if_splits)
qed

lemma foldl_invariante:
  assumes "P acc" and "\<And>a x. x \<in> set xs \<Longrightarrow> P a \<Longrightarrow> P (f a x)"
  shows "P (foldl f acc xs)"
  using assms by (induction xs arbitrary: acc) auto

lemma casos_de_secciones:
  assumes "c \<in> set (casos_plagio_de v secs)"
  shows "folio_1 c \<in> folio_seccion ` set secs \<and> folio_2 c \<in> folio_seccion ` set secs"
proof -
  let ?P = "\<lambda>casos :: caso_plagio list. \<forall>c\<in>set casos.
              folio_1 c \<in> folio_seccion ` set secs \<and> folio_2 c \<in> folio_seccion ` set secs"
  have interno: "?P (foldl (paso_casos v secs i) casos [i + 1..<length secs])"
    if "?P casos" and "i < length secs" for casos i
  proof (rule foldl_invariante [where P = ?P, OF that(1)])
    fix a j assume j: "j \<in> set [i + 1..<length secs]" and a: "?P a"
    from j have "j < length secs" by simp
    with that(2) have "folio_seccion (secs ! i) \<in> folio_seccion ` set secs"
      and "folio_seccion (secs ! j) \<in> folio_seccion ` set secs"
      by simp_all
    with a show "?P (paso_casos v secs i a j)"
      by (simp add: paso_casos_def Let_def)
  qed
  have "?P (casos_plagio_de v secs)"
    unfolding casos_plagio_de_def
  proof (rule foldl_invariante [where P = ?P])
    show "?P []" by simp
  next
    fix a i assume "i \<in> set [0..<length secs]" and "?P a"
    then show "?P (foldl (paso_casos v secs i) a [i + 1..<length secs])"
      using interno [of a i] by simp
  qed
  with assms show ?thesis by blast
qed

lemma plagio_omite_fallo:
  assumes "extraer_texto v i = ErrorExtraccion e"
  shows "\<exists>r. verificar_plagio v = Inr (agregar v r) \<and> Suc i \<notin> set (folios_afectados r)"
proof -
  have "Suc i \<notin> folio_seccion ` set (secciones_texto_de v)"
  proof
    assume "Suc i \<in> folio_seccion ` set (secciones_texto_de v)"
    then obtain s where "s \<in> set (secciones_texto_de v)" "folio_seccion s = Suc i" by auto
    with seccion_con_texto [of s v] assms show False by auto
  qed
  with casos_de_secciones [of _ v "secciones_texto_de v"]
  have "Suc i \<notin> set (remdups (map folio_1 (casos_plagio_de v (secciones_texto_de v))
                              @ map folio_2 (casos_plagio_de v (secciones_texto_de v))))"
    by auto
  then show ?thesis
    unfolding verificar_plagio_def Let_def by (intro exI conjI) (rule refl, simp)
qed

lemma paso_ortografia_folios:
  assumes "\<forall>x\<in>set (fst acc). \<exists>k t. folio_error x = Suc k \<and> extraer_texto v k = Texto t"
  shows "\<forall>x\<in>set (fst (paso_ortografia tool v acc n)).
           \<exists>k t. folio_error x = Suc k \<and> extraer_texto v k = Texto t"
  using assms
  by (cases "extraer_texto v n")
     (auto simp: paso_ortografia_def split: option.splits if_splits)

lemma cuerpo_ortografia_folios:
  assumes "cuerpo_ortografia language_tool v = Some r" and "p \<in> set (folios_afectados r)"
  shows "\<exists>k t. p = Suc k \<and> extraer_texto v k = Texto t"
proof -
  from assms(1) obtain tool where tool: "language_tool (idioma_ortografia (config v)) = Some tool"
    by (auto simp: cuerpo_ortografia_def split: option.splits)
  let ?acc = "foldl (paso_ortografia tool v) ([], 0) [0..<min (total_folios v) 50]"
  have "\<forall>x\<in>set (fst ?acc). \<exists>k t. folio_error x = Suc k \<and> extraer_texto v k = Texto t"
    by (rule foldl_invariante
          [where P = "\<lambda>acc :: error_folio list \<times> nat. \<forall>x\<in>set (fst acc). \<exists>k t. folio_error x = Suc k \<and> extraer_texto v k = Texto t"])
       (simp, rule paso_ortografia_folios)
  moreover from assms(1) tool have "folios_afectados r = map folio_error (fst ?acc)"
    by (auto simp: cuerpo_ortografia_def Let_def split: if_splits)
  ultimately show ?thesis using assms(2) by auto
qed

lemma ortografia_omite_fallo:
  assumes "extraer_texto v i = ErrorExtraccion e"
  shows "\<exists>r. verificar_ortografia language_tool v = Inr (agregar v r)
             \<and> Suc i \<notin> set (folios_afectados r)"
proof (cases "cuerpo_ortografia language_tool v")
  case None
  show ?thesis unfolding verificar_ortografia_def None
    by (intro exI conjI) (rule refl, simp)
next
  case (Some r)
  have "Suc i \<notin> set (folios_afectados r)"
    using cuerpo_ortografia_folios [OF Some, of "Suc i"] assms by auto
  then show ?thesis unfolding verificar_ortografia_def Some
    by (intro exI conjI) (rule refl, simp)
qed

lemma agregar_campos:
  "total_folios (agregar v r) = total_folios v"
  "config (agregar v r) = config v"
  "resultados (agregar v r) = resultados v @ [r]"
  by (simp_all add: agregar_def)

lemma luego_Inr: "luego (Inr x) f = f x"
  by (simp add: luego_def)

lemma pipeline_completo:
  assumes "pdf_reader (ruta_documento v) = Some paginas" and "paginas \<noteq> []"
  shows "\<exists>v'. ejecutar_verificacion_completa pdf_reader md5 language_tool v
               = Inr (preparar_resultados v')
             \<and> total_folios v' = length paginas
             \<and> length (resultados v')
                 = length (resultados v) + (if verificar_ortografia_cfg (config v) then 6 else 5)"
proof -
  define v0 where "v0 = v\<lparr>documento_pdf := Some paginas, total_folios := length paginas\<rparr>"
  have c: "cargar_documento pdf_reader v = (True, v0)"
    using assms(1) by (simp add: cargar_documento_def v0_def)
  have t0: "0 < total_folios v0" "total_folios v0 = length paginas" "config v0 = config v"
    "resultados v0 = resultados v"
    using assms(2) by (simp_all add: v0_def)
  from hojas_blanco_retorna [OF t0(1)] obtain r1 where
    e1: "verificar_hojas_blanco v0 = Inr (agregar v0 r1)" by blast
  define v1 where "v1 = agregar v0 r1"
  have t1: "0 < total_folios v1" using t0 by (simp add: v1_def agregar_campos)
  from foliacion_retorna [OF t1] obtain r2 where
    e2: "verificar_foliacion v1 = Inr (agregar v1 r2)" by blast
  define v2 where "v2 = agregar v1 r2"
  have t2: "0 < total_folios v2" using t1 by (simp add: v2_def agregar_campos)
  from folios_duplicados_retorna [OF t2] obtain r3 where
    e3: "verificar_folios_duplicados md5 v2 = Inr (agregar v2 r3)" by blast
  define v3 where "v3 = agregar v2 r3"
  have t3: "0 < total_folios v3" using t2 by (simp add: v3_def agregar_campos)
  from ilegibilidad_retorna [OF t3] obtain r4 where
    e4: "verificar_ilegibilidad v3 = Inr (agregar v3 r4)" by blast
  define v4 where "v4 = agregar v3 r4"
  from plagio_retorna obtain r5 where
    e5: "verificar_plagio v4 = Inr (agregar v4 r5)" by blast
  define v5 where "v5 = agregar v4 r5"
  from ortografia_retorna obtain r6 where
    e6: "verificar_ortografia language_tool v5 = Inr (agregar v5 r6)" by blast
  define v6 where "v6 = (if verificar_ortografia_cfg (config v5) then agregar v5 r6 else v5)"
  have cfg: "config v5 = config v"
    by (simp add: v5_def v4_def v3_def v2_def v1_def agregar_campos t0)
  have tot: "total_folios v5 = length paginas"
    by (simp add: v5_def v4_def v3_def v2_def v1_def agregar_campos t0)
  have res: "length (resultados v5) = length (resultados v) + 5"
    by (simp add: v5_def v4_def v3_def v2_def v1_def agregar_campos t0)
  have "ejecutar_verificacion_completa pdf_reader md5 language_tool v
        = Inr (preparar_resultados v6)"
    unfolding ejecutar_verificacion_completa_def c
    by (simp add: e1 luego_Inr v1_def [symmetric] e2 v2_def [symmetric] e3 v3_def [symmetric]
          e4 v4_def [symmetric] e5 v5_def [symmetric] e6 v6_def)
  moreover have "total_folios v6 = length paginas"
    by (simp add: v6_def agregar_campos tot)
  moreover have "length (resultados v6)
                 = length (resultados v) + (if verificar_ortografia_cfg (config v) then 6 else 5)"
    by (simp add: v6_def agregar_campos res cfg)
  ultimately show ?thesis by blast
qed

lemma hojas_blanco_omite_fallo:
  assumes "i < total_folios v" and "extraer_texto v i = ErrorExtraccion e"
  shows "\<exists>r. verificar_hojas_blanco v = Inr (agregar v r) \<and> Suc i \<notin> set (folios_afectados r)"
proof -
  have "Suc i \<notin> set (hojas_blanco_de v)"
    using assms(2) by (auto simp: hojas_blanco_de_filter)
  with assms(1) show ?thesis
    unfolding verificar_hojas_blanco_def Let_def by (intro exI conjI) (simp, simp)
qed

lemma foliacion_omite_fallo:
  assumes "i < total_folios v" and "extraer_texto v i = ErrorExtraccion e"
  shows "\<exists>r. verificar_foliacion v = Inr (agregar v r) \<and> Suc i \<notin> set (folios_afectados r)"
proof -
  have "Suc i \<notin> set (map pagina (folios_incorrectos_de v))"
    unfolding folios_incorrectos_de_filter using assms(2) by auto
  with assms(1) show ?thesis
    unfolding verificar_foliacion_def Let_def by (intro exI conjI) (simp, simp)
qed

lemma folios_duplicados_omite_fallo:
  assumes "i < total_folios v" and "extraer_texto v i = ErrorExtraccion e"
  shows "\<exists>r. verificar_folios_duplicados md5 v = Inr (agregar v r)
             \<and> Suc i \<notin> set (folios_afectados r)"
proof -
  have "\<not> repetido md5 v i"
    using assms(2) by (simp add: repetido_iff)
  then have "Suc i \<notin> set (map folio_duplicado (duplicados_de md5 v))"
    unfolding flagged_iff by simp
  with assms(1) show ?thesis
    unfolding verificar_folios_duplicados_def Let_def by (intro exI conjI) (simp, simp)
qed

lemma ilegibilidad_marca_fallo:
  assumes "i < total_folios v" and "extraer_texto v i = ErrorExtraccion e"
  shows "\<exists>r. verificar_ilegibilidad v = Inr (agregar v r) \<and> Suc i \<in> set (folios_afectados r)"
proof -
  have "Suc i \<in> set (map folio (folios_ilegibles_de v))"
    unfolding folios_ilegibles_de_filter using assms by auto
  with assms(1) show ?thesis
    unfolding verificar_ilegibilidad_def Let_def by (intro exI conjI) (simp, simp)
qed

text \<open>
  The blank-page check does not count a page whose extraction raises, while it counts a
  page with empty text.
\<close>

theorem fallo_no_es_blanco:
  "hojas_blanco_de (cargado [ErrorExtraccion ''fallo'']) = []
   \<and> hojas_blanco_de (cargado [Texto []]) = [1]"
  by code_simp

text \<open>
  Claim C9, amended. A page whose extraction raises never ends a check: every check
  still returns its result. The legibility check flags that page; the blank-page,
  pagination, duplicate, similarity and spelling checks skip it, so it is not among
  their affected pages. A document that loads with at least one page always gets its
  report, with the results of all five checks, or six with the spelling check.
\<close>

theorem fallo_de_extraccion:
  "(i < total_folios v \<and> extraer_texto v i = ErrorExtraccion e \<longrightarrow>
      (\<exists>r. verificar_hojas_blanco v = Inr (agregar v r) \<and> Suc i \<notin> set (folios_afectados r))
      \<and> (\<exists>r. verificar_foliacion v = Inr (agregar v r) \<and> Suc i \<notin> set (folios_afectados r))
      \<and> (\<exists>r. verificar_folios_duplicados md5 v = Inr (agregar v r)
               \<and> Suc i \<notin> set (folios_afectados r))
      \<and> (\<exists>r. verificar_ilegibilidad v = Inr (agregar v r) \<and> Suc i \<in> set (folios_afectados r))
      \<and> (\<exists>r. verificar_plagio v = Inr (agregar v r) \<and> Suc i \<notin> set (folios_afectados r))
      \<and> (\<exists>r. verificar_ortografia language_tool v = Inr (agregar v r)
               \<and> Suc i \<notin> set (folios_afectados r)))
   \<and> (pdf_reader (ruta_documento v) = Some paginas \<and> paginas \<noteq> [] \<longrightarrow>
      (\<exists>v'. ejecutar_verificacion_completa pdf_reader md5 language_tool v
               = Inr (preparar_resultados v')
             \<and> total_folios v' = length paginas
             \<and> length (resultados v')
                 = length (resultados v)
                   + (if verificar_ortografia_cfg (config v) then 6 else 5)))"
  using hojas_blanco_omite_fallo [of i v e] foliacion_omite_fallo [of i v e]
    folios_duplicados_omite_fallo [of i v e md5] ilegibilidad_marca_fallo [of i v e]
    plagio_omite_fallo [of v i e] ortografia_omite_fallo [of v i e language_tool]
    pipeline_completo [of pdf_reader v paginas md5 language_tool]
  by blast

theorem fallo_de_extraccion_witness:
  "(\<exists>r. verificar_hojas_blanco (cargado doc_tres) = Inr (agregar (cargado doc_tres) r)
         \<and> 3 \<notin> set (folios_afectados r))
   \<and> (\<exists>r. verificar_ilegibilidad (cargado doc_tres) = Inr (agregar (cargado doc_tres) r)
         \<and> 3 \<in> set (folios_afectados r))
   \<and> (\<exists>v'. ejecutar_verificacion_completa lector_tres id sin_herramienta
               (init_verificador ''doc.pdf'' None) = Inr (preparar_resultados v')
             \<and> total_folios v' = 3 \<and> length (resultados v') = 6)"
proof -
  have a: "2 < total_folios (cargado doc_tres)"
    "extraer_texto (cargado doc_tres) 2 = ErrorExtraccion ''fallo''"
    by (simp_all add: cargado_def doc_tres_def extraer_texto_def)
  have b: "lector_tres (ruta_documento (init_verificador ''doc.pdf'' None)) = Some doc_tres"
    "doc_tres \<noteq> []" "length doc_tres = 3"
    "verificar_ortografia_cfg (config (init_verificador ''doc.pdf'' None))"
    "resultados (init_verificador ''doc.pdf'' None) = []"
    by (simp_all add: lector_tres_def doc_tres_def init_verificador_def config_default_def)
  from fallo_de_extraccion [of 2 "cargado doc_tres" "''fallo''" id sin_herramienta]
       fallo_de_extraccion [of 0 "init_verificador ''doc.pdf'' None" "''fallo''" id
                              sin_herramienta lector_tres doc_tres]
       a b
  show ?thesis by (simp add: numeral_3_eq_3)
qed

end
